(* ===== verification/Prelude.thy ===== *)
theory Prelude
  imports Complex_Main "HOL-Library.Sublist" "HOL-Library.While_Combinator"
begin

text \<open>
  Shared vocabulary of the development: the Python exceptions the orchestrator can raise
  (as one datatype, so that every raise of \<^verbatim>\<open>src/Simulation.py\<close> and of the
  collaborators it calls is a value \<open>Inl e\<close> of a sum type), the bind of that sum,
  the representation of numpy vectors as \<open>real list\<close>, and the generic lemmas on
  lists and on the sum type that the component theories share.
\<close>

named_theorems model_simps "evaluation rules of the model's operations"

type_synonym vec = "real list"

datatype error =
    InvalidConfiguration
  | DisconnectedTopologyError
  | IndexError
  | ValueError
  | RuntimeError
  | AttributeError

definition bind_res :: "'e + 'a \<Rightarrow> ('a \<Rightarrow> 'e + 'b) \<Rightarrow> 'e + 'b" where
  "bind_res r f = (case r of Inl e \<Rightarrow> Inl e | Inr a \<Rightarrow> f a)"

text \<open>Python's \<open>xs[i]\<close> for \<open>0 \<le> i\<close>: \<open>IndexError\<close> out of range.\<close>

definition py_nth :: "'a list \<Rightarrow> nat \<Rightarrow> error + 'a" where
  "py_nth xs i = (if i < length xs then Inr (xs ! i) else Inl IndexError)"

text \<open>A list of fallible results, evaluated left to right: the first error, or all
  the values.\<close>

fun seq_res :: "('e + 'a) list \<Rightarrow> 'e + 'a list" where
  "seq_res [] = Inr []"
| "seq_res (r # rs) = bind_res r (\<lambda>a. bind_res (seq_res rs) (\<lambda>as. Inr (a # as)))"

lemma bind_res_Inl [simp, model_simps]: "bind_res (Inl e) f = Inl e"
  by (simp add: bind_res_def)

lemma bind_res_Inr [simp, model_simps]: "bind_res (Inr a) f = f a"
  by (simp add: bind_res_def)

lemma bind_res_eq_Inr:
  "bind_res r f = Inr b \<longleftrightarrow> (\<exists>a. r = Inr a \<and> f a = Inr b)"
  by (cases r) auto

lemma py_nth_in_range [simp, model_simps]: "i < length xs \<Longrightarrow> py_nth xs i = Inr (xs ! i)"
  by (simp add: py_nth_def)

lemma py_nth_out_of_range [simp, model_simps]:
  "length xs \<le> i \<Longrightarrow> py_nth xs i = Inl IndexError"
  by (simp add: py_nth_def)

lemma seq_res_map_Inr:
  "(\<And>x. x \<in> set xs \<Longrightarrow> f x = Inr (g x)) \<Longrightarrow> seq_res (map f xs) = Inr (map g xs)"
  by (induction xs) auto

lemma bind_res_eq_Inl:
  "bind_res r f = Inl e \<longleftrightarrow> r = Inl e \<or> (\<exists>a. r = Inr a \<and> f a = Inl e)"
  by (cases r) auto

lemma seq_res_map_Inl: "seq_res (map f xs) = Inl e \<Longrightarrow> \<exists>x \<in> set xs. f x = Inl e"
  by (induction xs) (auto simp: bind_res_eq_Inl)

end
