(* ===== verification/Node.thy ===== *)
theory Node
  imports Prelude
begin

text \<open>
  The node collaborator (a \<^verbatim>\<open>threading.Thread\<close> subclass whose source is not in
  \<^verbatim>\<open>src/\<close>; modelled from spec.md sections 3 and 4.3). The orchestrator uses three
  things of it: the append-only list \<^verbatim>\<open>all_calculated_xis\<close>, the latch read by
  \<^verbatim>\<open>has_result_founded()\<close>, and the thread attributes \<^verbatim>\<open>daemon\<close> and
  \<^verbatim>\<open>start()\<close>. The numerical update rule is the collaborator's own: one iteration
  is given the estimate it produced and its local acceptance decision.
\<close>

record node =
  all_calculated_xis :: "vec list"
  result_founded :: bool
  daemon :: bool
  started :: bool

definition new_node :: node where
  "new_node = \<lparr>all_calculated_xis = [], result_founded = False, daemon = False, started = False\<rparr>"

definition has_result_founded :: "node \<Rightarrow> bool" where
  "has_result_founded n = result_founded n"

text \<open>One iteration of the node's \<^verbatim>\<open>run()\<close>: the estimate is appended to the
  history, and the latch is set when the node's own criterion accepts; it is never reset.\<close>

definition node_iteration :: "node \<Rightarrow> vec \<Rightarrow> bool \<Rightarrow> node" where
  "node_iteration n x accept =
     n\<lparr>all_calculated_xis := all_calculated_xis n @ [x],
       result_founded := (result_founded n \<or> accept)\<rparr>"

text \<open>The setter of \<^verbatim>\<open>threading.Thread.daemon\<close>: it raises
  \<^verbatim>\<open>RuntimeError\<close> on a thread that is already running.\<close>

definition set_daemon :: "node \<Rightarrow> bool \<Rightarrow> error + node" where
  "set_daemon n b = (if started n then Inl RuntimeError else Inr (n\<lparr>daemon := b\<rparr>))"

text \<open>\<^verbatim>\<open>threading.Thread.start\<close>: a thread can be started once; a second call
  raises \<^verbatim>\<open>RuntimeError\<close>.\<close>

definition thread_start :: "node \<Rightarrow> error + node" where
  "thread_start n = (if started n then Inl RuntimeError else Inr (n\<lparr>started := True\<rparr>))"

text \<open>A run of the node is a sequence of iterations.\<close>

fun node_run :: "node \<Rightarrow> (vec \<times> bool) list \<Rightarrow> node" where
  "node_run n [] = n"
| "node_run n ((x, a) # xs) = node_run (node_iteration n x a) xs"

lemma node_iteration_latch [model_simps]:
  "has_result_founded (node_iteration n x a) = (has_result_founded n \<or> a)"
  by (simp add: node_iteration_def has_result_founded_def)

lemma node_iteration_history [model_simps]:
  "all_calculated_xis (node_iteration n x a) = all_calculated_xis n @ [x]"
  by (simp add: node_iteration_def)

lemma new_node_fresh [model_simps]:
  "\<not> has_result_founded new_node" "all_calculated_xis new_node = []"
  "\<not> daemon new_node" "\<not> started new_node"
  by (simp_all add: has_result_founded_def new_node_def)

lemma node_run_history:
  "all_calculated_xis (node_run n xs) = all_calculated_xis n @ map fst xs"
  by (induction n xs rule: node_run.induct) (simp_all add: node_iteration_history)

lemma node_run_latch:
  "has_result_founded (node_run n xs) = (has_result_founded n \<or> (\<exists>p \<in> set xs. snd p))"
  by (induction n xs rule: node_run.induct) (auto simp: node_iteration_latch)

lemma node_run_append: "node_run n (xs @ ys) = node_run (node_run n xs) ys"
  by (induction n xs rule: node_run.induct) simp_all

lemma node_run_thread:
  "daemon (node_run n xs) = daemon n" "started (node_run n xs) = started n"
  by (induction n xs rule: node_run.induct) (simp_all add: node_iteration_def)

end
