(* ===== verification/Specification.thy ===== *)
theory Specification
  imports Prelude
begin

text \<open>
  The run configuration (module \<^verbatim>\<open>SimulationSpecification\<close>, whose source is not
  in \<^verbatim>\<open>src/\<close>; modelled from spec.md sections 3, 4.1 and 7). Each setter of the
  Python class reads one value from the console; the model takes the value read as an
  argument. \<^verbatim>\<open>set_number_of_nodes\<close> and \<^verbatim>\<open>set_min_accepted_divergence\<close>
  validate and raise \<^verbatim>\<open>InvalidConfiguration\<close>; the other setters store the value.
  Python's unbounded integers are \<open>int\<close>, floats are \<open>real\<close>.
\<close>

record simulation_specification =
  number_of_nodes :: int
  x0 :: vec
  epsilon :: real
  c :: real
  min_accepted_divergence :: real

text \<open>The console answers, in the order \<^verbatim>\<open>set_simulation_specification\<close> asks.\<close>

record spec_input =
  in_number_of_nodes :: int
  in_x0 :: vec
  in_epsilon :: real
  in_c :: real
  in_min_accepted_divergence :: real

definition SimulationSpecification :: simulation_specification where
  "SimulationSpecification =
     \<lparr>number_of_nodes = 0, x0 = [], epsilon = 0, c = 0, min_accepted_divergence = 0\<rparr>"

definition set_number_of_nodes :: "simulation_specification \<Rightarrow> int \<Rightarrow> error + simulation_specification" where
  "set_number_of_nodes s n =
     (if n < 1 then Inl InvalidConfiguration else Inr (s\<lparr>number_of_nodes := n\<rparr>))"

definition set_x0 :: "simulation_specification \<Rightarrow> vec \<Rightarrow> error + simulation_specification" where
  "set_x0 s v = Inr (s\<lparr>x0 := v\<rparr>)"

definition set_epsilon :: "simulation_specification \<Rightarrow> real \<Rightarrow> error + simulation_specification" where
  "set_epsilon s e = Inr (s\<lparr>epsilon := e\<rparr>)"

definition set_c :: "simulation_specification \<Rightarrow> real \<Rightarrow> error + simulation_specification" where
  "set_c s v = Inr (s\<lparr>c := v\<rparr>)"

definition set_min_accepted_divergence ::
  "simulation_specification \<Rightarrow> real \<Rightarrow> error + simulation_specification" where
  "set_min_accepted_divergence s d =
     (if d < 0 then Inl InvalidConfiguration else Inr (s\<lparr>min_accepted_divergence := d\<rparr>))"

lemmas setter_defs =
  set_number_of_nodes_def set_x0_def set_epsilon_def set_c_def set_min_accepted_divergence_def

end
