(* ===== verification/NetworkGraph.thy ===== *)
theory NetworkGraph
  imports Node Specification
begin

text \<open>
  The topology collaborator (class \<^verbatim>\<open>NetworkGraph\<close>, whose source is not in
  \<^verbatim>\<open>src/\<close>; modelled from spec.md sections 3, 4.2 and 7). Its random generator is
  an input of the model: a \<open>topology\<close> gives the undirected edges it drew and the
  ground-truth \<^verbatim>\<open>optimum_point\<close>. The constructor creates one fresh node per
  vertex and raises \<^verbatim>\<open>DisconnectedTopologyError\<close> when the drawn graph is not
  connected. Vertices are \<open>0 .. n - 1\<close>, node \<open>i\<close> of \<^verbatim>\<open>nodes\<close> sits on vertex \<open>i\<close>.
  The breadth-first check is proved sound against the reflexive-transitive closure of
  the undirected edges and, for edges inside the vertex range, complete
  (\<open>connected_iff\<close>).
\<close>

record topology =
  topo_edges :: "(nat \<times> nat) list"
  topo_optimum :: vec

record network_graph =
  nodes :: "node list"
  optimum_point :: vec
  edges :: "(nat \<times> nat) list"

text \<open>Connectivity by breadth-first expansion from vertex 0, edges taken both ways;
  \<open>n\<close> rounds reach every vertex of a connected graph on \<open>n\<close> vertices.\<close>

definition expand :: "(nat \<times> nat) list \<Rightarrow> nat list \<Rightarrow> nat list" where
  "expand es S =
     remdups (S @ [v. (u, v) \<leftarrow> es, u \<in> set S] @ [u. (u, v) \<leftarrow> es, v \<in> set S])"

fun reach :: "nat \<Rightarrow> (nat \<times> nat) list \<Rightarrow> nat list \<Rightarrow> nat list" where
  "reach 0 es S = S"
| "reach (Suc k) es S = reach k es (expand es S)"

definition connected :: "nat \<Rightarrow> (nat \<times> nat) list \<Rightarrow> bool" where
  "connected n es = list_all (\<lambda>v. v \<in> set (reach n es [0])) [0..<n]"

definition NetworkGraph :: "simulation_specification \<Rightarrow> topology \<Rightarrow> error + network_graph" where
  "NetworkGraph s t =
     (let n = nat (number_of_nodes s) in
      if \<not> connected n (topo_edges t) then Inl DisconnectedTopologyError
      else Inr \<lparr>nodes = replicate n new_node, optimum_point = topo_optimum t,
                edges = topo_edges t\<rparr>)"

text \<open>The undirected edge relation of an edge list.\<close>

definition undirected :: "(nat \<times> nat) list \<Rightarrow> (nat \<times> nat) set" where
  "undirected es = set es \<union> prod.swap ` set es"

text \<open>A path on three vertices, for the witnesses.\<close>

definition path3 :: topology where
  "path3 = \<lparr>topo_edges = [(0, 1), (1, 2)], topo_optimum = [0]\<rparr>"

text \<open>One round of \<open>expand\<close> on sets of vertices, and well-formed edge lists:
  every endpoint is a vertex \<open>0 .. n - 1\<close> of the graph.\<close>

definition expand_set :: "(nat \<times> nat) list \<Rightarrow> nat set \<Rightarrow> nat set" where
  "expand_set es X = X \<union> undirected es `` X"

definition wf_edges :: "nat \<Rightarrow> (nat \<times> nat) list \<Rightarrow> bool" where
  "wf_edges n es = list_all (\<lambda>(u, v). u < n \<and> v < n) es"

lemma expand_sound:
  assumes "v \<in> set (expand es S)"
  shows "\<exists>u \<in> set S. (u, v) \<in> (undirected es)\<^sup>*"
proof -
  from assms consider "v \<in> set S"
    | u where "u \<in> set S" "(u, v) \<in> set es"
    | u where "u \<in> set S" "(v, u) \<in> set es"
    by (auto simp: expand_def)
  then show ?thesis
  proof cases
    case 1
    then show ?thesis by blast
  next
    case (2 u)
    then have "(u, v) \<in> undirected es" by (simp add: undirected_def)
    with 2 show ?thesis by blast
  next
    case (3 u)
    then have "(u, v) \<in> undirected es" by (force simp: undirected_def)
    with 3 show ?thesis by blast
  qed
qed

lemma reach_sound:
  "v \<in> set (reach k es S) \<Longrightarrow> \<exists>u \<in> set S. (u, v) \<in> (undirected es)\<^sup>*"
proof (induction k es S arbitrary: v rule: reach.induct)
  case (1 es S)
  then show ?case by auto
next
  case (2 k es S)
  then obtain w where w: "w \<in> set (expand es S)" "(w, v) \<in> (undirected es)\<^sup>*"
    by auto
  from expand_sound [OF w(1)] obtain u where "u \<in> set S" "(u, w) \<in> (undirected es)\<^sup>*"
    by blast
  with w(2) show ?case by (meson rtrancl_trans)
qed

lemma connected_sound:
  "connected n es \<Longrightarrow> v < n \<Longrightarrow> (0, v) \<in> (undirected es)\<^sup>*"
  using reach_sound [of v n es "[0]"] by (auto simp: connected_def list_all_iff)

subsection \<open>Completeness of the breadth-first check\<close>

text \<open>Every round adds a vertex or reaches a fixpoint, and a fixpoint is closed under
  the edges; the vertices are bounded by \<open>n\<close>, so \<open>n\<close> rounds reach every vertex
  connected to vertex 0.\<close>

lemma set_expand: "set (expand es S) = expand_set es (set S)"
  by (auto simp: expand_def expand_set_def undirected_def Image_iff)

lemma set_reach: "set (reach k es S) = (expand_set es ^^ k) (set S)"
  by (induction k arbitrary: S) (simp_all add: set_expand funpow_swap1)

lemma expand_set_incr: "X \<subseteq> expand_set es X"
  by (auto simp: expand_set_def)

lemma funpow_expand_mono: "j \<le> k \<Longrightarrow> (expand_set es ^^ j) X \<subseteq> (expand_set es ^^ k) X"
proof (induction k)
  case 0
  then show ?case by simp
next
  case (Suc k)
  then show ?case
    using expand_set_incr [of "(expand_set es ^^ k) X" es] by (auto simp: le_Suc_eq)
qed

lemma finite_expand_set: "finite X \<Longrightarrow> finite (expand_set es X)"
proof -
  have "undirected es `` X \<subseteq> snd ` undirected es" by force
  moreover have "finite (undirected es)" by (simp add: undirected_def)
  ultimately show "finite X \<Longrightarrow> ?thesis" by (auto simp: expand_set_def intro: finite_subset)
qed

lemma finite_funpow_expand: "finite X \<Longrightarrow> finite ((expand_set es ^^ k) X)"
  by (induction k) (simp_all add: finite_expand_set)

lemma expand_set_closed:
  assumes "expand_set es X = X" "u \<in> X" "(u, v) \<in> (undirected es)\<^sup>*"
  shows "v \<in> X"
  using assms(3,2)
proof (induction rule: rtrancl_induct)
  case base
  then show ?case .
next
  case (step y z)
  then have "z \<in> expand_set es X" by (auto simp: expand_set_def)
  with assms(1) show ?case by simp
qed

lemma expand_set_grow:
  assumes "finite X"
  shows "(\<exists>j\<le>k. expand_set es ((expand_set es ^^ j) X) = (expand_set es ^^ j) X) \<or>
         card X + k \<le> card ((expand_set es ^^ k) X)"
proof (induction k)
  case 0
  then show ?case by simp
next
  case (Suc k)
  let ?Y = "(expand_set es ^^ k) X"
  show ?case
  proof (cases "expand_set es ?Y = ?Y")
    case True
    then show ?thesis by (metis le_Suc_eq order_refl)
  next
    case False
    then have "?Y \<subset> expand_set es ?Y" using expand_set_incr by blast
    then have "card ?Y < card (expand_set es ?Y)"
      by (intro psubset_card_mono finite_expand_set finite_funpow_expand assms)
    with Suc.IH show ?thesis by (auto intro: le_SucI)
  qed
qed

lemma expand_set_bound:
  "wf_edges n es \<Longrightarrow> X \<subseteq> {..<n} \<Longrightarrow> expand_set es X \<subseteq> {..<n}"
  by (auto simp: expand_set_def undirected_def wf_edges_def list_all_iff)

lemma funpow_expand_bound:
  "wf_edges n es \<Longrightarrow> X \<subseteq> {..<n} \<Longrightarrow> (expand_set es ^^ k) X \<subseteq> {..<n}"
  by (induction k) (simp_all add: expand_set_bound)

lemma reach_complete:
  assumes wf: "wf_edges n es" and n: "0 < n" and v: "(0, v) \<in> (undirected es)\<^sup>*"
  shows "v \<in> set (reach n es [0])"
proof -
  let ?F = "expand_set es"
  have sub: "(?F ^^ n) {0} \<subseteq> {..<n}" using funpow_expand_bound [OF wf] n by simp
  have "card ((?F ^^ n) {0}) \<le> n" using card_mono [OF _ sub] by simp
  then obtain j where j: "j \<le> n" "?F ((?F ^^ j) {0}) = (?F ^^ j) {0}"
    using expand_set_grow [of "{0}" n es] by auto
  have "0 \<in> (?F ^^ j) {0}" using funpow_expand_mono [of 0 j es "{0}"] by simp
  then have "v \<in> (?F ^^ j) {0}" by (rule expand_set_closed [OF j(2) _ v])
  with funpow_expand_mono [OF j(1)] show ?thesis by (auto simp: set_reach)
qed

lemma connected_iff:
  "wf_edges n es \<Longrightarrow> connected n es \<longleftrightarrow> {0..<n} \<subseteq> (undirected es)\<^sup>* `` {0}"
  using connected_sound reach_complete
  by (fastforce simp: connected_def list_all_iff)

end
