(* ===== verification/Simulation.thy ===== *)
theory Simulation
  imports NetworkGraph
begin

text \<open>
  The state of class \<^verbatim>\<open>Simulation\<close> of \<^verbatim>\<open>src/Simulation.py\<close> and its set-up
  methods: the constructor (lines 16--17), \<^verbatim>\<open>set_simulation_specification\<close>
  (lines 19--26), \<^verbatim>\<open>generate_network_graph\<close> (lines 28--31) and the loop of the
  script that marks every node thread as daemon and starts it (lines 80--82). The
  attribute \<^verbatim>\<open>network_graph\<close> does not exist before
  \<^verbatim>\<open>generate_network_graph\<close> has run: it is \<open>None\<close> until then, and reading
  it raises \<^verbatim>\<open>AttributeError\<close>.
\<close>

record simulation =
  simulation_specification :: simulation_specification
  network_graph :: "network_graph option"

definition Simulation_init :: simulation where
  "Simulation_init = \<lparr>simulation_specification = SimulationSpecification, network_graph = None\<rparr>"

text \<open>The five setters in the order of lines 21--25; the first that raises aborts.\<close>

definition set_simulation_specification :: "simulation \<Rightarrow> spec_input \<Rightarrow> error + simulation" where
  "set_simulation_specification sim i =
     bind_res (set_number_of_nodes (simulation_specification sim) (in_number_of_nodes i)) (\<lambda>s1.
     bind_res (set_x0 s1 (in_x0 i)) (\<lambda>s2.
     bind_res (set_epsilon s2 (in_epsilon i)) (\<lambda>s3.
     bind_res (set_c s3 (in_c i)) (\<lambda>s4.
     bind_res (set_min_accepted_divergence s4 (in_min_accepted_divergence i)) (\<lambda>s5.
     Inr (sim\<lparr>simulation_specification := s5\<rparr>))))))"

definition generate_network_graph ::
  "simulation \<Rightarrow> simulation_specification \<Rightarrow> topology \<Rightarrow> error + simulation" where
  "generate_network_graph sim s t =
     bind_res (NetworkGraph s t) (\<lambda>g. Inr (sim\<lparr>network_graph := Some g\<rparr>))"

definition get_network_graph :: "simulation \<Rightarrow> error + network_graph" where
  "get_network_graph sim =
     (case network_graph sim of None \<Rightarrow> Inl AttributeError | Some g \<Rightarrow> Inr g)"

text \<open>Lines 80--82: \<^verbatim>\<open>for i in range(len(nodes)): nodes[i].daemon = True;
  nodes[i].start()\<close>. The loop is over the index \<open>i\<close>; on a node that was
  started before, the daemon assignment already raises.\<close>

function start_nodes_from :: "node list \<Rightarrow> nat \<Rightarrow> error + node list" where
  "start_nodes_from ns i =
     (if i < length ns then
        bind_res (set_daemon (ns ! i) True) (\<lambda>nd.
        bind_res (thread_start nd) (\<lambda>n'.
          start_nodes_from (ns[i := n']) (Suc i)))
      else Inr ns)"
  by pat_completeness auto
termination
  by (relation "measure (\<lambda>(ns, i). length ns - i)") (auto simp: bind_res_def)

declare start_nodes_from.simps [simp del]

definition start_nodes :: "simulation \<Rightarrow> error + simulation" where
  "start_nodes sim =
     bind_res (get_network_graph sim) (\<lambda>g.
     bind_res (start_nodes_from (nodes g) 0) (\<lambda>ns.
     Inr (sim\<lparr>network_graph := Some (g\<lparr>nodes := ns\<rparr>)\<rparr>)))"

text \<open>A simulation whose graph of two fresh nodes has been generated, for the witnesses.\<close>

definition demo_pair_graph :: network_graph where
  "demo_pair_graph = \<lparr>nodes = [new_node, new_node], optimum_point = [0], edges = [(0, 1)]\<rparr>"

definition demo_pair :: simulation where
  "demo_pair = Simulation_init\<lparr>network_graph := Some demo_pair_graph\<rparr>"

text \<open>A drawn topology on three vertices that leaves vertex 2 isolated.\<close>

definition split3 :: topology where
  "split3 = \<lparr>topo_edges = [(0, 1)], topo_optimum = [0]\<rparr>"

subsection \<open>Lemmas\<close>

lemma start_nodes_from_ok:
  "(\<forall>k. i \<le> k \<and> k < length ns \<longrightarrow> \<not> started (ns ! k)) \<Longrightarrow>
   start_nodes_from ns i = Inr (take i ns @ map (\<lambda>n. n\<lparr>daemon := True, started := True\<rparr>) (drop i ns))"
proof (induction ns i rule: start_nodes_from.induct)
  case (1 ns i)
  show ?case
  proof (cases "i < length ns")
    case True
    let ?n' = "(ns ! i)\<lparr>daemon := True, started := True\<rparr>"
    from True "1.prems" have d: "set_daemon (ns ! i) True = Inr ((ns ! i)\<lparr>daemon := True\<rparr>)"
      and start: "thread_start ((ns ! i)\<lparr>daemon := True\<rparr>) = Inr ?n'"
      by (simp_all add: set_daemon_def thread_start_def)
    from True "1.prems" have "start_nodes_from (ns[i := ?n']) (Suc i) =
        Inr (take (Suc i) (ns[i := ?n']) @ map (\<lambda>n. n\<lparr>daemon := True, started := True\<rparr>) (drop (Suc i) (ns[i := ?n'])))"
      by (intro "1.IH" [OF True, of ?n']) (auto simp: start nth_list_update)
    moreover from True have "take (Suc i) (ns[i := ?n']) = take i ns @ [?n']"
      by (simp add: take_Suc_conv_app_nth)
    moreover from True have "drop i ns = ns ! i # drop (Suc i) ns"
      by (simp add: Cons_nth_drop_Suc)
    ultimately show ?thesis using True d start
      by (subst start_nodes_from.simps) simp
  next
    case False
    then show ?thesis by (subst start_nodes_from.simps) simp
  qed
qed

lemma start_nodes_eq:
  "network_graph sim = Some g \<Longrightarrow> \<forall>n \<in> set (nodes g). \<not> started n \<Longrightarrow>
   start_nodes sim =
     Inr (sim\<lparr>network_graph := Some (g\<lparr>nodes := map (\<lambda>n. n\<lparr>daemon := True, started := True\<rparr>) (nodes g)\<rparr>)\<rparr>)"
  by (simp add: start_nodes_def get_network_graph_def start_nodes_from_ok)

subsection \<open>Properties of the set-up\<close>

text \<open>C22: \<^verbatim>\<open>set_simulation_specification\<close> stores exactly the values read, and
  raises \<^verbatim>\<open>InvalidConfiguration\<close> when the node count is below 1 or the accepted
  divergence is negative (spec.md 4.1).\<close>

theorem set_simulation_specification_eq:
  "set_simulation_specification sim i =
     (if in_number_of_nodes i < 1 \<or> in_min_accepted_divergence i < 0 then Inl InvalidConfiguration
      else Inr (sim\<lparr>simulation_specification :=
        \<lparr>number_of_nodes = in_number_of_nodes i, x0 = in_x0 i, epsilon = in_epsilon i,
         c = in_c i, min_accepted_divergence = in_min_accepted_divergence i\<rparr>\<rparr>))"
  by (simp add: set_simulation_specification_def setter_defs)

text \<open>C23: lines 80--82 mark every node as a daemon thread and start it, leaving its
  history and latch as they were, when no node was started before.\<close>

theorem start_nodes_marks_all:
  assumes "network_graph sim = Some g" and "\<forall>n \<in> set (nodes g). \<not> started n"
  shows "\<exists>g'. start_nodes sim = Inr (sim\<lparr>network_graph := Some g'\<rparr>) \<and>
    length (nodes g') = length (nodes g) \<and>
    (\<forall>k < length (nodes g). daemon (nodes g' ! k) \<and> started (nodes g' ! k) \<and>
       all_calculated_xis (nodes g' ! k) = all_calculated_xis (nodes g ! k) \<and>
       result_founded (nodes g' ! k) = result_founded (nodes g ! k))"
  using start_nodes_eq [OF assms] by auto

theorem start_nodes_marks_all_witness:
  "network_graph demo_pair = Some demo_pair_graph \<and>
   \<not> started (nodes demo_pair_graph ! 0) \<and> \<not> started (nodes demo_pair_graph ! 1) \<and>
   (\<exists>g'. start_nodes demo_pair = Inr (demo_pair\<lparr>network_graph := Some g'\<rparr>) \<and>
     length (nodes g') = 2 \<and> daemon (nodes g' ! 0) \<and> started (nodes g' ! 0) \<and>
     daemon (nodes g' ! 1) \<and> started (nodes g' ! 1))"
proof -
  have h1: "network_graph demo_pair = Some demo_pair_graph"
    by (simp add: demo_pair_def Simulation_init_def)
  have h2: "\<forall>n \<in> set (nodes demo_pair_graph). \<not> started n"
    by (simp add: demo_pair_graph_def model_simps)
  have two: "length (nodes demo_pair_graph) = 2"
    by (simp add: demo_pair_graph_def)
  obtain g' where "start_nodes demo_pair = Inr (demo_pair\<lparr>network_graph := Some g'\<rparr>)"
    and "length (nodes g') = length (nodes demo_pair_graph)"
    and "\<forall>k < length (nodes demo_pair_graph). daemon (nodes g' ! k) \<and> started (nodes g' ! k) \<and>
       all_calculated_xis (nodes g' ! k) = all_calculated_xis (nodes demo_pair_graph ! k) \<and>
       result_founded (nodes g' ! k) = result_founded (nodes demo_pair_graph ! k)"
    using start_nodes_marks_all [OF h1 h2] by blast
  with h1 two show ?thesis
    by (auto simp: demo_pair_graph_def new_node_fresh)
qed

text \<open>C7: on a well-formed drawn topology (every endpoint a vertex of the graph),
  graph generation succeeds exactly when every vertex is connected to vertex 0 in the
  undirected graph, storing one fresh node per vertex, and raises
  \<^verbatim>\<open>DisconnectedTopologyError\<close> otherwise: the breadth-first check decides
  connectivity (spec.md 4.2).\<close>

theorem generate_network_graph_exact:
  assumes "wf_edges (nat (number_of_nodes s)) (topo_edges t)"
  shows "generate_network_graph sim s t =
    (if {0..<nat (number_of_nodes s)} \<subseteq> (undirected (topo_edges t))\<^sup>* `` {0}
     then Inr (sim\<lparr>network_graph := Some \<lparr>nodes = replicate (nat (number_of_nodes s)) new_node,
                  optimum_point = topo_optimum t, edges = topo_edges t\<rparr>\<rparr>)
     else Inl DisconnectedTopologyError)"
  using connected_iff [OF assms]
  by (simp add: generate_network_graph_def NetworkGraph_def Let_def)

theorem generate_network_graph_exact_witness:
  "wf_edges 3 (topo_edges path3) \<and> wf_edges 3 (topo_edges split3) \<and>
   generate_network_graph Simulation_init (SimulationSpecification\<lparr>number_of_nodes := 3\<rparr>) path3 =
     Inr (Simulation_init\<lparr>network_graph := Some \<lparr>nodes = replicate 3 new_node,
            optimum_point = [0], edges = [(0, 1), (1, 2)]\<rparr>\<rparr>) \<and>
   generate_network_graph Simulation_init (SimulationSpecification\<lparr>number_of_nodes := 3\<rparr>) split3 =
     Inl DisconnectedTopologyError"
proof -
  have n: "nat (number_of_nodes (SimulationSpecification\<lparr>number_of_nodes := 3\<rparr>)) = 3"
    by (simp add: SimulationSpecification_def)
  have wp: "wf_edges 3 (topo_edges path3)" and ws: "wf_edges 3 (topo_edges split3)"
    by (simp_all add: wf_edges_def path3_def split3_def)
  have cp: "{0..<3} \<subseteq> (undirected (topo_edges path3))\<^sup>* `` {0}"
  proof -
    have "connected 3 (topo_edges path3)" by (simp add: path3_def) code_simp
    then show ?thesis using connected_iff [OF wp] by simp
  qed
  have cs: "\<not> {0..<3} \<subseteq> (undirected (topo_edges split3))\<^sup>* `` {0}"
  proof -
    have "\<not> connected 3 (topo_edges split3)" by (simp add: split3_def) code_simp
    then show ?thesis using connected_iff [OF ws] by simp
  qed
  show ?thesis
    using wp ws cp cs generate_network_graph_exact [of "SimulationSpecification\<lparr>number_of_nodes := 3\<rparr>", unfolded n]
    by (simp add: path3_def split3_def)
qed

end
