(* ===== verification/Supervisor.thy ===== *)
theory Supervisor
  imports Simulation
begin

text \<open>
  \<^verbatim>\<open>Simulation.wait_until_result_founded\<close> (\<^verbatim>\<open>src/Simulation.py\<close>, lines
  59--68): a polling loop that sleeps 5 seconds, then scans the nodes in index order and
  stops the scan at the first node whose latch is not set (lines 63--67); it leaves the
  loop after the first scan that finds every latch set. The nodes run concurrently while
  the supervisor sleeps, so the node list the loop reads is a function of time
  \<open>env :: nat \<Rightarrow> node list\<close> (seconds since the call); a scan reads the nodes at
  the instant it runs. The loop need not end, so it is a \<^theory_text>\<open>partial_function
  (option)\<close>: \<open>None\<close> is the supervisor blocking forever, \<open>Some t\<close> the instant it
  leaves the loop.
\<close>

definition poll_interval :: nat where
  "poll_interval = 5"

text \<open>The scan of lines 64--67 from index \<open>i\<close>: the value of
  \<^verbatim>\<open>is_all_dif_accepted\<close> after the loop, and the indices of the nodes whose
  \<^verbatim>\<open>has_result_founded()\<close> was called, in call order.\<close>

function scan_from :: "node list \<Rightarrow> nat \<Rightarrow> bool \<times> nat list" where
  "scan_from ns i =
     (if i < length ns then
        (if \<not> has_result_founded (ns ! i) then (False, [i])
         else (case scan_from ns (Suc i) of (a, r) \<Rightarrow> (a, i # r)))
      else (True, []))"
  by pat_completeness auto
termination
  by (relation "measure (\<lambda>(ns, i). length ns - i)") auto

declare scan_from.simps [simp del]

definition scan_nodes :: "node list \<Rightarrow> bool \<times> nat list" where
  "scan_nodes ns = scan_from ns 0"

text \<open>Lines 60--67. \<^verbatim>\<open>while True and not (is_all_dif_accepted)\<close> is the test
  \<open>\<not> acc\<close>; \<^verbatim>\<open>sleep(5)\<close> advances the clock before the scan.\<close>

partial_function (option) wait_loop :: "(nat \<Rightarrow> node list) \<Rightarrow> nat \<Rightarrow> bool \<Rightarrow> nat option" where
  "wait_loop env t acc =
     (if True \<and> \<not> acc then
        (let t' = t + poll_interval in wait_loop env t' (fst (scan_nodes (env t'))))
      else Some t)"

definition wait_until_result_founded :: "(nat \<Rightarrow> node list) \<Rightarrow> nat \<Rightarrow> nat option" where
  "wait_until_result_founded env t0 = wait_loop env t0 False"

text \<open>The instant of the \<open>k\<close>-th scan (from 0) of a call made at \<open>t0\<close>, and
  whether that scan sees every latch set.\<close>

definition poll_time :: "nat \<Rightarrow> nat \<Rightarrow> nat" where
  "poll_time t0 k = t0 + poll_interval * Suc k"

definition all_found :: "node list \<Rightarrow> bool" where
  "all_found ns = list_all has_result_founded ns"

text \<open>The node list the supervisor sees at each instant, when node \<open>i\<close> performs one
  iteration of its \<^verbatim>\<open>run()\<close> per second along its schedule \<open>sched i\<close> (the
  collaborator's estimates and acceptance decisions); the latch discipline of spec.md 3
  as a property of such functions of time.\<close>

definition node_env :: "node list \<Rightarrow> (nat \<Rightarrow> (vec \<times> bool) list) \<Rightarrow> nat \<Rightarrow> node list" where
  "node_env ns sched t = map (\<lambda>i. node_run (ns ! i) (take t (sched i))) [0..<length ns]"

definition latch_monotone :: "(nat \<Rightarrow> node list) \<Rightarrow> bool" where
  "latch_monotone env \<longleftrightarrow>
     (\<forall>s s'. s \<le> s' \<longrightarrow> length (env s') = length (env s) \<and>
        (\<forall>i < length (env s). has_result_founded (env s ! i) \<longrightarrow> has_result_founded (env s' ! i)))"

text \<open>The index of the first node whose latch is not set (\<open>length ns\<close> when all are).\<close>

definition first_unfound :: "node list \<Rightarrow> nat" where
  "first_unfound ns = length (takeWhile has_result_founded ns)"

text \<open>The scenarios of spec.md section 8 as environments. Scenario A: three nodes that
  accept at their tenth iteration. Scenario B: node 0 accepts at its fifth iteration,
  node 1 never accepts.\<close>

definition scenario_A :: "nat \<Rightarrow> node list" where
  "scenario_A = node_env (replicate 3 new_node) (\<lambda>i. replicate 9 ([0], False) @ [([0], True)])"

definition scenario_B :: "nat \<Rightarrow> node list" where
  "scenario_B = node_env [new_node, new_node]
     (\<lambda>i. if i = 0 then replicate 4 ([1], False) @ [([1], True)] else replicate 4 ([1], False))"

subsection \<open>The scan\<close>

lemma scan_from_fst: "fst (scan_from ns i) = list_all has_result_founded (drop i ns)"
proof (induction ns i rule: scan_from.induct)
  case (1 ns i)
  show ?case
  proof (cases "i < length ns")
    case True
    with "1.IH" show ?thesis
      by (subst scan_from.simps) (auto split: prod.splits simp: Cons_nth_drop_Suc [symmetric])
  next
    case False
    then show ?thesis by (subst scan_from.simps) auto
  qed
qed

lemma scan_from_reads:
  "snd (scan_from ns i) = [i..<min (length ns) (Suc (i + length (takeWhile has_result_founded (drop i ns))))]"
proof (induction ns i rule: scan_from.induct)
  case (1 ns i)
  show ?case
  proof (cases "i < length ns")
    case True
    with "1.IH" show ?thesis
      by (subst scan_from.simps) (auto split: prod.splits simp: Cons_nth_drop_Suc [symmetric] upt_conv_Cons)
  next
    case False
    then show ?thesis by (subst scan_from.simps) auto
  qed
qed

subsection \<open>The polling loop\<close>

lemma wait_loop_done: "wait_loop env t True = Some t"
  by (subst wait_loop.simps) simp

lemma wait_loop_poll:
  "wait_loop env t False = wait_loop env (t + poll_interval) (all_found (env (t + poll_interval)))"
  by (subst wait_loop.simps) (simp add: scan_nodes_def scan_from_fst all_found_def Let_def)

lemma wait_loop_skip:
  "(\<forall>j<k. \<not> all_found (env (poll_time t j))) \<Longrightarrow>
   wait_loop env t False = wait_loop env (t + poll_interval * k) False"
proof (induction k arbitrary: t)
  case 0
  then show ?case by simp
next
  case (Suc k)
  from Suc.prems have first: "\<not> all_found (env (t + poll_interval))"
    by (auto simp: poll_time_def)
  from Suc.prems have "\<forall>j<k. \<not> all_found (env (poll_time (t + poll_interval) j))"
    by (auto simp: poll_time_def add.assoc)
  with Suc.IH have "wait_loop env (t + poll_interval) False =
      wait_loop env (t + poll_interval + poll_interval * k) False" by blast
  with first show ?case by (simp add: wait_loop_poll add.assoc)
qed

lemma wait_loop_first:
  assumes "all_found (env (poll_time t k))" and "\<forall>j<k. \<not> all_found (env (poll_time t j))"
  shows "wait_loop env t False = Some (poll_time t k)"
proof -
  have "wait_loop env t False = wait_loop env (t + poll_interval * k) False"
    using assms(2) by (rule wait_loop_skip)
  also have "\<dots> = wait_loop env (poll_time t k) (all_found (env (poll_time t k)))"
    by (simp add: wait_loop_poll poll_time_def algebra_simps)
  also have "\<dots> = Some (poll_time t k)"
    using assms(1) by (simp add: wait_loop_done)
  finally show ?thesis .
qed

lemma wait_loop_returns_polled:
  assumes ret: "wait_loop env t acc = Some r"
  shows "acc \<or> (\<exists>k. all_found (env (poll_time t k)))"
proof (rule wait_loop.raw_induct [where P = "\<lambda>env t acc r. acc \<or> (\<exists>k. all_found (env (poll_time t k)))", OF _ ret])
  fix f env t acc r
  assume IH: "\<And>env t acc r. f env t acc = Some r \<Longrightarrow> acc \<or> (\<exists>k. all_found (env (poll_time t k)))"
    and eq: "(if True \<and> \<not> acc then
        (let t' = t + poll_interval in f env t' (fst (scan_nodes (env t'))))
      else Some t) = Some r"
  show "acc \<or> (\<exists>k. all_found (env (poll_time t k)))"
  proof (cases acc)
    case True
    then show ?thesis by simp
  next
    case False
    with eq have "f env (t + poll_interval) (all_found (env (t + poll_interval))) = Some r"
      by (simp add: scan_nodes_def scan_from_fst all_found_def Let_def)
    then have "all_found (env (t + poll_interval)) \<or>
        (\<exists>k. all_found (env (poll_time (t + poll_interval) k)))" by (rule IH)
    then have "all_found (env (poll_time t 0)) \<or> (\<exists>k. all_found (env (poll_time t (Suc k))))"
      by (simp add: poll_time_def add.assoc)
    then show ?thesis by blast
  qed
qed

lemma wait_loop_eq:
  "wait_loop env t False =
     (if \<exists>k. all_found (env (poll_time t k))
      then Some (poll_time t (LEAST k. all_found (env (poll_time t k)))) else None)"
proof (cases "\<exists>k. all_found (env (poll_time t k))")
  case True
  let ?k = "LEAST k. all_found (env (poll_time t k))"
  from True have "all_found (env (poll_time t ?k))" by (rule LeastI_ex)
  moreover have "\<forall>j<?k. \<not> all_found (env (poll_time t j))"
    using not_less_Least by blast
  ultimately have "wait_loop env t False = Some (poll_time t ?k)"
    by (rule wait_loop_first)
  with True show ?thesis by simp
next
  case False
  have "wait_loop env t False = None"
  proof (rule ccontr)
    assume "wait_loop env t False \<noteq> None"
    then obtain r where "wait_loop env t False = Some r" by blast
    then have "False \<or> (\<exists>k. all_found (env (poll_time t k)))"
      by (rule wait_loop_returns_polled)
    with False show False by blast
  qed
  with False show ?thesis by simp
qed

lemma wait_until_Some_iff:
  "wait_until_result_founded env t = Some r \<longleftrightarrow>
     (\<exists>k. r = poll_time t k \<and> all_found (env r) \<and> (\<forall>j<k. \<not> all_found (env (poll_time t j))))"
proof
  let ?P = "\<lambda>k. all_found (env (poll_time t k))"
  assume "wait_until_result_founded env t = Some r"
  then have ex: "\<exists>k. ?P k" and r: "r = poll_time t (LEAST k. ?P k)"
    by (auto simp: wait_until_result_founded_def wait_loop_eq split: if_splits)
  show "\<exists>k. r = poll_time t k \<and> all_found (env r) \<and> (\<forall>j<k. \<not> all_found (env (poll_time t j)))"
    using LeastI_ex [OF ex] not_less_Least [where P = ?P] r by blast
next
  assume "\<exists>k. r = poll_time t k \<and> all_found (env r) \<and> (\<forall>j<k. \<not> all_found (env (poll_time t j)))"
  then show "wait_until_result_founded env t = Some r"
    by (auto simp: wait_until_result_founded_def intro: wait_loop_first)
qed

lemma poll_time_mono: "j \<le> k \<Longrightarrow> poll_time t j \<le> poll_time t k"
  by (simp add: poll_time_def)

lemma poll_covering:
  "T \<le> poll_time t ((T - Suc t) div poll_interval) \<and>
   poll_time t ((T - Suc t) div poll_interval) \<le> max (t + poll_interval) (T + poll_interval - 1)"
  unfolding poll_time_def poll_interval_def by presburger

subsection \<open>Environments\<close>

lemma all_found_mono:
  "latch_monotone env \<Longrightarrow> s \<le> s' \<Longrightarrow> all_found (env s) \<Longrightarrow> all_found (env s')"
  by (simp add: latch_monotone_def all_found_def list_all_length)

lemma node_run_take_latch_mono:
  "s \<le> s' \<Longrightarrow> has_result_founded (node_run n (take s xs)) \<Longrightarrow>
   has_result_founded (node_run n (take s' xs))"
  using set_take_subset_set_take [of s s' xs] by (auto simp: node_run_latch)

lemma node_env_length [simp]: "length (node_env ns sched s) = length ns"
  by (simp add: node_env_def)

lemma node_env_latch:
  "k < length ns \<Longrightarrow> has_result_founded (node_env ns sched s ! k) =
     (has_result_founded (ns ! k) \<or> (\<exists>p \<in> set (take s (sched k)). snd p))"
  by (simp add: node_env_def node_run_latch)

lemma node_env_history:
  "k < length ns \<Longrightarrow> all_calculated_xis (node_env ns sched s ! k) =
     all_calculated_xis (ns ! k) @ map fst (take s (sched k))"
  by (simp add: node_env_def node_run_history)

lemma latch_monotone_node_env: "latch_monotone (node_env ns sched)"
  by (simp add: latch_monotone_def node_env_def node_run_take_latch_mono)

lemma scenario_A_polls: "\<not> all_found (scenario_A 5)" "all_found (scenario_A 10)"
  by (simp_all add: scenario_A_def node_env_def all_found_def node_iteration_def
      has_result_founded_def new_node_def numeral_eq_Suc)

lemma scenario_A_returns: "wait_until_result_founded scenario_A 0 = Some 10"
proof -
  have "wait_until_result_founded scenario_A 0 = Some (poll_time 0 1)"
    unfolding wait_until_result_founded_def
    by (rule wait_loop_first) (use scenario_A_polls in \<open>simp_all add: poll_time_def poll_interval_def\<close>)
  then show ?thesis by (simp add: poll_time_def poll_interval_def)
qed

lemma scenario_A_node0: "\<not> has_result_founded (scenario_A 5 ! 0)"
  by (simp add: scenario_A_def node_env_def node_iteration_def has_result_founded_def
      new_node_def numeral_eq_Suc)

lemma scenario_B_node1: "1 < length (scenario_B s) \<and> \<not> has_result_founded (scenario_B s ! 1)"
proof -
  have "set (take s (replicate 4 ([1::real], False))) \<subseteq> {([1], False)}"
    using set_take_subset [of s "replicate 4 ([1::real], False)"] by auto
  then show ?thesis
    by (auto simp: scenario_B_def node_env_def node_run_latch new_node_fresh)
qed

subsection \<open>Properties of the scan\<close>

text \<open>C11: the scan of lines 63--67 leaves \<^verbatim>\<open>is_all_dif_accepted\<close> true exactly
  when every node's latch is set.\<close>

theorem scan_nodes_accepted: "fst (scan_nodes ns) = all_found ns"
  by (simp add: scan_nodes_def scan_from_fst all_found_def)

text \<open>C12: the scan queries the nodes in index order and stops at the first node whose
  latch is not set: it calls \<^verbatim>\<open>has_result_founded()\<close> on nodes
  \<open>0 .. first_unfound ns\<close> and on no other.\<close>

theorem scan_nodes_reads:
  "snd (scan_nodes ns) = [0..<min (length ns) (Suc (first_unfound ns))]"
  by (simp add: scan_nodes_def scan_from_reads first_unfound_def)

subsection \<open>Properties of the polling loop\<close>

text \<open>C2: the loop returns at the first scan that finds every latch set, and blocks
  forever (\<open>None\<close>) when no scan does: its whole behaviour as a function of the
  environment.\<close>

theorem wait_until_result_founded_eq:
  "wait_until_result_founded env t =
     (if \<exists>k. all_found (env (poll_time t k))
      then Some (poll_time t (LEAST k. all_found (env (poll_time t k)))) else None)"
  by (simp add: wait_until_result_founded_def wait_loop_eq)

text \<open>C3: detection latency. With latches that never reset, if every latch is set at
  instant \<open>T\<close>, the supervisor called at \<open>t\<close> returns, and no later than one
  poll interval after \<open>T\<close> (or than its first scan, when \<open>T\<close> is earlier).\<close>

theorem wait_latency_bound:
  assumes "latch_monotone env" and "all_found (env T)"
  shows "\<exists>r. wait_until_result_founded env t = Some r \<and>
           r \<le> max (t + poll_interval) (T + poll_interval - 1)"
proof -
  let ?k = "(T - Suc t) div poll_interval"
  have cover: "T \<le> poll_time t ?k"
    and bound: "poll_time t ?k \<le> max (t + poll_interval) (T + poll_interval - 1)"
    using poll_covering by auto
  have found: "all_found (env (poll_time t ?k))"
    by (rule all_found_mono [OF assms(1) cover assms(2)])
  let ?m = "LEAST k. all_found (env (poll_time t k))"
  from found have "?m \<le> ?k" by (rule Least_le)
  then have "poll_time t ?m \<le> poll_time t ?k" by (rule poll_time_mono)
  with found bound show ?thesis
    by (auto simp: wait_until_result_founded_def wait_loop_eq)
qed

theorem wait_latency_bound_witness:
  "latch_monotone scenario_A \<and> all_found (scenario_A 10) \<and>
   (\<exists>r. wait_until_result_founded scenario_A 0 = Some r \<and> r \<le> max (0 + poll_interval) (10 + poll_interval - 1))"
proof -
  have h1: "latch_monotone scenario_A" by (simp add: scenario_A_def latch_monotone_node_env)
  have h2: "all_found (scenario_A 10)" by (rule scenario_A_polls(2))
  show ?thesis using h1 h2 wait_latency_bound [OF h1 h2, of 0] by blast
qed

text \<open>C4: staggered convergence (spec.md 8): with latches that never reset, the
  supervisor does not return before the last node sets its latch: at every instant at or
  after its return, no latch is unset.\<close>

theorem wait_after_last_flip:
  assumes "latch_monotone env" and "wait_until_result_founded env t = Some r"
    and "i < length (env s)" and "\<not> has_result_founded (env s ! i)"
  shows "s < r"
proof (rule ccontr)
  assume "\<not> s < r"
  then have le: "r \<le> s" by simp
  from assms(2) have "all_found (env r)" by (auto simp: wait_until_Some_iff)
  with assms(1) le have "all_found (env s)" by (rule all_found_mono)
  with assms(3,4) show False by (simp add: all_found_def list_all_length)
qed

theorem wait_after_last_flip_witness:
  "latch_monotone scenario_A \<and> wait_until_result_founded scenario_A 0 = Some 10 \<and>
   0 < length (scenario_A 5) \<and> \<not> has_result_founded (scenario_A 5 ! 0) \<and> (5::nat) < 10"
proof -
  have h1: "latch_monotone scenario_A" by (simp add: scenario_A_def latch_monotone_node_env)
  have h3: "0 < length (scenario_A 5)" by (simp add: scenario_A_def node_env_def)
  show ?thesis
    using h1 scenario_A_returns h3 scenario_A_node0
      wait_after_last_flip [OF h1 scenario_A_returns h3 scenario_A_node0] by blast
qed

end
