(* ===== verification/Interleaving.thy ===== *)
theory Interleaving
  imports Supervisor
begin

text \<open>
  The supervisor of \<^verbatim>\<open>wait_until_result_founded\<close> (\<^verbatim>\<open>src/Simulation.py\<close>,
  lines 59--68) interleaved with the node threads started at lines 80--82. The
  supervisor is a program counter over the loop: the loop test (\<open>LoopHead\<close>), the
  \<^verbatim>\<open>sleep(5)\<close> (\<open>Sleeping\<close>), the scan at index \<open>i\<close> (\<open>Scanning i\<close>), and
  \<open>Done\<close> after the loop, where the script goes on to
  \<^verbatim>\<open>generate_convergence_plot\<close>. Each supervisor step is one statement; between
  any two of them any node thread may run one iteration. The threads are daemons that
  are never stopped (line 81), so node steps stay enabled after \<open>Done\<close>. The
  invariant \<open>sup_inv\<close> gives the happens-before of spec.md 5, \<open>sup_run\<close> and its
  variant \<open>steps_to_done\<close> the liveness of the supervisor once every latch is set.
  \<open>wf_sys\<close> is the well-formedness of a state, preserved by every step, and
  \<open>scan_run\<close> runs a scan statement by statement, which relates one loop iteration
  to the atomic \<open>scan_nodes\<close> of the polling-loop model.
\<close>

datatype sup_pc = LoopHead | Sleeping | Scanning nat | Done

record sys_state =
  sys_nodes :: "node list"
  pc :: sup_pc
  is_all_dif_accepted :: bool

text \<open>Line 60: the flag starts false, the supervisor at the loop test.\<close>

definition sys_init :: "node list \<Rightarrow> sys_state" where
  "sys_init ns = \<lparr>sys_nodes = ns, pc = LoopHead, is_all_dif_accepted = False\<rparr>"

text \<open>One statement of the supervisor; \<open>None\<close> once it has left the loop.\<close>

definition sup_step :: "sys_state \<Rightarrow> sys_state option" where
  "sup_step s =
     (case pc s of
        LoopHead \<Rightarrow>
          if True \<and> \<not> is_all_dif_accepted s then Some (s\<lparr>pc := Sleeping\<rparr>)
          else Some (s\<lparr>pc := Done\<rparr>)
      | Sleeping \<Rightarrow> Some (s\<lparr>pc := Scanning 0, is_all_dif_accepted := True\<rparr>)
      | Scanning i \<Rightarrow>
          if i < length (sys_nodes s) then
            (if \<not> has_result_founded (sys_nodes s ! i)
             then Some (s\<lparr>is_all_dif_accepted := False, pc := LoopHead\<rparr>)
             else Some (s\<lparr>pc := Scanning (Suc i)\<rparr>))
          else Some (s\<lparr>pc := LoopHead\<rparr>)
      | Done \<Rightarrow> None)"

inductive sim_step :: "sys_state \<Rightarrow> sys_state \<Rightarrow> bool" where
  supervisor: "sup_step s = Some s' \<Longrightarrow> sim_step s s'"
| node: "j < length (sys_nodes s) \<Longrightarrow>
     sim_step s (s\<lparr>sys_nodes := (sys_nodes s)[j := node_iteration (sys_nodes s ! j) x a]\<rparr>)"

inductive reachable :: "node list \<Rightarrow> sys_state \<Rightarrow> bool" for ns where
  start: "reachable ns (sys_init ns)"
| step: "reachable ns s \<Longrightarrow> sim_step s t \<Longrightarrow> reachable ns t"

text \<open>What the supervisor knows at each point of the loop: while scanning at index
  \<open>i\<close>, the flag is true and the nodes before \<open>i\<close> were seen with their latch set;
  at the loop test with the flag true, and after the loop, every latch is set.\<close>

definition sup_inv :: "sys_state \<Rightarrow> bool" where
  "sup_inv s \<longleftrightarrow>
     (\<forall>i. pc s = Scanning i \<longrightarrow> is_all_dif_accepted s \<and>
        (\<forall>j < min i (length (sys_nodes s)). has_result_founded (sys_nodes s ! j))) \<and>
     (pc s = LoopHead \<and> is_all_dif_accepted s \<longrightarrow> all_found (sys_nodes s)) \<and>
     (pc s = Done \<longrightarrow> all_found (sys_nodes s))"

text \<open>The supervisor running \<open>k\<close> statements with no node step in between (it
  stops once it has left the loop), and the number of its statements still needed to
  leave the loop once every latch is set: the variant of its liveness proof.\<close>

fun sup_run :: "nat \<Rightarrow> sys_state \<Rightarrow> sys_state" where
  "sup_run 0 s = s"
| "sup_run (Suc k) s = (case sup_step s of None \<Rightarrow> s | Some t \<Rightarrow> sup_run k t)"

definition steps_to_done :: "sys_state \<Rightarrow> nat" where
  "steps_to_done s =
     (let n = length (sys_nodes s) in
      case pc s of
        Done \<Rightarrow> 0
      | LoopHead \<Rightarrow> if is_all_dif_accepted s then 1 else n + 4
      | Sleeping \<Rightarrow> n + 3
      | Scanning i \<Rightarrow> (n - i) + 2)"

definition demo_latched :: sys_state where
  "demo_latched = (sys_init [new_node])\<lparr>sys_nodes := [node_iteration new_node [0] True]\<rparr>"

text \<open>Well-formedness of a system state of \<open>n\<close> nodes: the node count is fixed,
  the scan index never passes the end of the node list, and the flag agrees with the
  program counter (false while sleeping, true while scanning and after the loop).\<close>

definition wf_sys :: "nat \<Rightarrow> sys_state \<Rightarrow> bool" where
  "wf_sys n s \<longleftrightarrow> length (sys_nodes s) = n \<and>
     (case pc s of
        LoopHead \<Rightarrow> True
      | Sleeping \<Rightarrow> \<not> is_all_dif_accepted s
      | Scanning i \<Rightarrow> i \<le> n \<and> is_all_dif_accepted s
      | Done \<Rightarrow> is_all_dif_accepted s)"

subsection \<open>Frame lemmas\<close>

lemma sup_step_nodes: "sup_step s = Some t \<Longrightarrow> sys_nodes t = sys_nodes s"
  by (auto simp: sup_step_def split: sup_pc.splits if_splits)

lemma node_step_latch:
  "j < length ns \<Longrightarrow> k < length ns \<Longrightarrow> has_result_founded (ns ! k) \<Longrightarrow>
   has_result_founded (ns[j := node_iteration (ns ! j) x a] ! k)"
  by (cases "j = k") (simp_all add: node_iteration_latch)

lemma node_step_all_found:
  "j < length ns \<Longrightarrow> all_found ns \<Longrightarrow> all_found (ns[j := node_iteration (ns ! j) x a])"
  by (auto simp: all_found_def list_all_length node_step_latch)

subsection \<open>The invariant\<close>

lemma sup_inv_init: "sup_inv (sys_init ns)"
  by (simp add: sup_inv_def sys_init_def)

lemma sup_step_inv: "sup_inv s \<Longrightarrow> sup_step s = Some t \<Longrightarrow> sup_inv t"
  by (auto simp: sup_inv_def sup_step_def all_found_def list_all_length less_Suc_eq
      split: sup_pc.splits if_splits)

lemma node_step_inv:
  "sup_inv s \<Longrightarrow> j < length (sys_nodes s) \<Longrightarrow>
   sup_inv (s\<lparr>sys_nodes := (sys_nodes s)[j := node_iteration (sys_nodes s ! j) x a]\<rparr>)"
  by (auto simp: sup_inv_def node_step_latch node_step_all_found)

lemma sim_step_inv: "sim_step s t \<Longrightarrow> sup_inv s \<Longrightarrow> sup_inv t"
  by (induction rule: sim_step.induct) (auto intro: sup_step_inv node_step_inv)

lemma reachable_inv: "reachable ns s \<Longrightarrow> sup_inv s"
  by (induction rule: reachable.induct) (auto intro: sup_inv_init sim_step_inv)

lemma reachable_sup:
  "reachable ns s \<Longrightarrow> sup_step s = Some t \<Longrightarrow> reachable ns t"
  by (rule reachable.step) (auto intro: sim_step.supervisor)

lemma reachable_demo_latched: "reachable [new_node] demo_latched"
proof -
  have "sim_step (sys_init [new_node])
     ((sys_init [new_node])\<lparr>sys_nodes := (sys_nodes (sys_init [new_node]))[0 :=
        node_iteration (sys_nodes (sys_init [new_node]) ! 0) [0] True]\<rparr>)"
    by (rule sim_step.node) (simp add: sys_init_def)
  then show ?thesis
    by (auto intro: reachable.step [OF reachable.start] simp: demo_latched_def sys_init_def)
qed

lemma reachable_demo_done:
  "reachable [new_node] (demo_latched\<lparr>pc := Done, is_all_dif_accepted := True\<rparr>)"
proof -
  let ?s = demo_latched
  have "reachable [new_node] (?s\<lparr>pc := Sleeping\<rparr>)"
    by (rule reachable_sup [OF reachable_demo_latched]) (simp add: sup_step_def demo_latched_def sys_init_def)
  then have "reachable [new_node] (?s\<lparr>pc := Scanning 0, is_all_dif_accepted := True\<rparr>)"
    by (rule reachable_sup) (simp add: sup_step_def demo_latched_def sys_init_def)
  then have "reachable [new_node] (?s\<lparr>pc := Scanning 1, is_all_dif_accepted := True\<rparr>)"
    by (rule reachable_sup)
       (simp add: sup_step_def demo_latched_def sys_init_def model_simps)
  then have "reachable [new_node] (?s\<lparr>pc := LoopHead, is_all_dif_accepted := True\<rparr>)"
    by (rule reachable_sup) (simp add: sup_step_def demo_latched_def sys_init_def)
  then show ?thesis
    by (rule reachable_sup) (simp add: sup_step_def demo_latched_def sys_init_def)
qed

lemma sup_step_progress:
  assumes "sup_inv s" and "all_found (sys_nodes s)" and "pc s \<noteq> Done"
  shows "\<exists>t. sup_step s = Some t \<and> steps_to_done t < steps_to_done s \<and> sup_inv t \<and> sys_nodes t = sys_nodes s"
proof -
  have "sup_step s \<noteq> None" using assms(3)
    by (auto simp: sup_step_def split: sup_pc.splits)
  then obtain t where t: "sup_step s = Some t" by blast
  have "steps_to_done t < steps_to_done s"
    using assms t
    by (auto simp: sup_step_def steps_to_done_def sup_inv_def all_found_def list_all_length Let_def
        split: sup_pc.splits if_splits)
  moreover have "sup_inv t" using sup_step_inv [OF assms(1) t] .
  moreover have "sys_nodes t = sys_nodes s" using sup_step_nodes [OF t] .
  ultimately show ?thesis using t by blast
qed

lemma sup_run_done:
  "sup_inv s \<Longrightarrow> all_found (sys_nodes s) \<Longrightarrow> steps_to_done s \<le> k \<Longrightarrow> pc (sup_run k s) = Done"
proof (induction k arbitrary: s)
  case 0
  then show ?case by (cases "pc s") (auto simp: steps_to_done_def Let_def split: if_splits)
next
  case (Suc k)
  show ?case
  proof (cases "pc s = Done")
    case True
    then show ?thesis by (simp add: sup_step_def)
  next
    case False
    with Suc.prems obtain t where t: "sup_step s = Some t" "steps_to_done t < steps_to_done s"
      "sup_inv t" "sys_nodes t = sys_nodes s"
      using sup_step_progress by blast
    with Suc.prems have "pc (sup_run k t) = Done" by (intro Suc.IH) auto
    with t show ?thesis by simp
  qed
qed

lemma sim_step_length: "sim_step s t \<Longrightarrow> length (sys_nodes t) = length (sys_nodes s)"
  by (induction rule: sim_step.induct) (simp_all add: sup_step_nodes)

lemma reachable_length: "reachable ns s \<Longrightarrow> length (sys_nodes s) = length ns"
  by (induction rule: reachable.induct) (simp_all add: sys_init_def sim_step_length)

lemma steps_to_done_bound: "steps_to_done s \<le> length (sys_nodes s) + 4"
  by (auto simp: steps_to_done_def Let_def split: sup_pc.splits)

subsection \<open>Well-formedness and the scan as a sequence of statements\<close>

lemma sim_step_wf: "sim_step s t \<Longrightarrow> wf_sys n s \<Longrightarrow> wf_sys n t"
  by (induction rule: sim_step.induct)
     (auto simp: wf_sys_def sup_step_def split: sup_pc.splits if_splits)

lemma scan_run:
  "sys_nodes s = ns \<Longrightarrow> pc s = Scanning i \<Longrightarrow> is_all_dif_accepted s \<Longrightarrow>
   sup_run (length (snd (scan_from ns i)) + (if fst (scan_from ns i) then 1 else 0)) s =
   s\<lparr>pc := LoopHead, is_all_dif_accepted := fst (scan_from ns i)\<rparr>"
proof (induction ns i arbitrary: s rule: scan_from.induct)
  case (1 ns i s)
  show ?case
  proof (cases "i < length ns")
    case lt: True
    show ?thesis
    proof (cases "has_result_founded (ns ! i)")
      case True
      let ?t = "s\<lparr>pc := Scanning (Suc i)\<rparr>"
      obtain a r where ar: "scan_from ns (Suc i) = (a, r)" by fastforce
      have step: "sup_step s = Some ?t" using lt True "1.prems" by (simp add: sup_step_def)
      have ih: "sup_run (length r + (if a then 1 else 0)) ?t = ?t\<lparr>pc := LoopHead, is_all_dif_accepted := a\<rparr>"
        using "1.IH" [OF lt, of ?t] True "1.prems" ar by simp
      have sc: "scan_from ns i = (a, i # r)"
        using lt True ar by (subst scan_from.simps) simp
      show ?thesis using step ih sc by simp
    next
      case False
      have "sup_step s = Some (s\<lparr>is_all_dif_accepted := False, pc := LoopHead\<rparr>)"
        using lt False "1.prems" by (simp add: sup_step_def)
      moreover have "scan_from ns i = (False, [i])"
        using lt False by (subst scan_from.simps) simp
      ultimately show ?thesis by simp
    qed
  next
    case False
    then have "sup_step s = Some (s\<lparr>pc := LoopHead\<rparr>)" using "1.prems" by (simp add: sup_step_def)
    moreover have "scan_from ns i = (True, [])"
      using False by (subst scan_from.simps) simp
    ultimately show ?thesis using "1.prems" by (cases s) simp
  qed
qed


lemma sup_iteration:
  assumes "pc s = LoopHead" and "\<not> is_all_dif_accepted s"
  shows "sup_run (Suc (Suc (length (snd (scan_nodes (sys_nodes s))) +
                  (if fst (scan_nodes (sys_nodes s)) then 1 else 0)))) s =
         s\<lparr>is_all_dif_accepted := fst (scan_nodes (sys_nodes s))\<rparr>"
proof -
  let ?u = "s\<lparr>pc := Scanning 0, is_all_dif_accepted := True\<rparr>"
  have "sup_step s = Some (s\<lparr>pc := Sleeping\<rparr>)" using assms by (simp add: sup_step_def)
  moreover have "sup_step (s\<lparr>pc := Sleeping\<rparr>) = Some ?u" by (simp add: sup_step_def)
  moreover have "sup_run (length (snd (scan_from (sys_nodes s) 0)) + (if fst (scan_from (sys_nodes s) 0) then 1 else 0)) ?u =
      ?u\<lparr>pc := LoopHead, is_all_dif_accepted := fst (scan_from (sys_nodes s) 0)\<rparr>"
    by (rule scan_run) simp_all
  ultimately show ?thesis using assms by (simp add: scan_nodes_def)
qed

subsection \<open>Properties of the interleaving\<close>

text \<open>C1: happens-before of spec.md 5: in every interleaving of the supervisor with
  the node threads, when the supervisor has left the loop every node's latch is set.\<close>

theorem done_all_found:
  "reachable ns s \<Longrightarrow> pc s = Done \<Longrightarrow> all_found (sys_nodes s)"
  using reachable_inv by (auto simp: sup_inv_def)

theorem done_all_found_witness:
  "reachable [new_node] (demo_latched\<lparr>pc := Done, is_all_dif_accepted := True\<rparr>) \<and>
   pc (demo_latched\<lparr>pc := Done, is_all_dif_accepted := True\<rparr>) = Done \<and>
   all_found (sys_nodes (demo_latched\<lparr>pc := Done, is_all_dif_accepted := True\<rparr>))"
  using reachable_demo_done done_all_found [OF reachable_demo_done] by simp

text \<open>C10: liveness of the supervisor: from any reachable state in which every latch
  is set, the supervisor leaves the loop within \<open>n + 4\<close> of its own statements
  (\<open>n\<close> nodes): it finishes the current scan or starts one more and finds no
  unset latch.\<close>

theorem supervisor_leaves_loop:
  assumes "reachable ns s" and "all_found (sys_nodes s)"
  shows "pc (sup_run (length ns + 4) s) = Done"
proof -
  from assms(1) have "sup_inv s" by (rule reachable_inv)
  moreover from assms(1) have "length (sys_nodes s) = length ns" by (rule reachable_length)
  ultimately show ?thesis
    using assms(2) steps_to_done_bound [of s] by (intro sup_run_done) auto
qed

theorem supervisor_leaves_loop_witness:
  "reachable [new_node] demo_latched \<and> all_found (sys_nodes demo_latched) \<and>
   pc (sup_run (length [new_node] + 4) demo_latched) = Done"
proof -
  have h: "all_found (sys_nodes demo_latched)"
    by (simp add: all_found_def demo_latched_def sys_init_def model_simps)
  show ?thesis using reachable_demo_latched h supervisor_leaves_loop [OF reachable_demo_latched h] by blast
qed

text \<open>C6: well-formedness is a type invariant of the interleaving: in every
  reachable state the node list keeps its length, the scan index stays within
  \<open>0 .. n\<close> (so line 65 reads \<^verbatim>\<open>nodes[i]\<close> only at \<open>i < n\<close>), and the
  flag is false while sleeping and true while scanning and after the loop.\<close>

theorem reachable_wf_sys: "reachable ns s \<Longrightarrow> wf_sys (length ns) s"
  by (induction rule: reachable.induct) (simp add: wf_sys_def sys_init_def, blast intro: sim_step_wf)

theorem reachable_wf_sys_witness:
  "reachable [new_node] (demo_latched\<lparr>pc := Done, is_all_dif_accepted := True\<rparr>) \<and>
   wf_sys (length [new_node]) (demo_latched\<lparr>pc := Done, is_all_dif_accepted := True\<rparr>)"
  using reachable_demo_done reachable_wf_sys [OF reachable_demo_done] by simp


text \<open>C5: refinement of the polling loop: one iteration of the supervisor's loop
  run statement by statement (the test, \<^verbatim>\<open>sleep\<close>, the flag set at line 63, one
  statement per node read and the loop exit or \<^verbatim>\<open>break\<close>) with no node step in
  between ends back at the loop test with the flag equal to the atomic scan
  \<open>scan_nodes\<close> that the body of \<open>wait_loop\<close> uses.\<close>

theorem loop_iteration_refines_scan:
  assumes "pc s = LoopHead" and "\<not> is_all_dif_accepted s"
  shows "sup_run (Suc (Suc (length (snd (scan_nodes (sys_nodes s))) +
                  (if fst (scan_nodes (sys_nodes s)) then 1 else 0)))) s =
         s\<lparr>is_all_dif_accepted := fst (scan_nodes (sys_nodes s))\<rparr>"
  using sup_iteration [OF assms] .

theorem loop_iteration_refines_scan_witness:
  "pc demo_latched = LoopHead \<and> \<not> is_all_dif_accepted demo_latched \<and>
   sup_run 4 demo_latched = demo_latched\<lparr>is_all_dif_accepted := True\<rparr>"
proof -
  have h1: "pc demo_latched = LoopHead" and h2: "\<not> is_all_dif_accepted demo_latched"
    by (simp_all add: demo_latched_def sys_init_def)
  have sc: "scan_nodes (sys_nodes demo_latched) = (True, [0])"
    by (simp add: scan_nodes_def demo_latched_def sys_init_def scan_from.simps model_simps)
  show ?thesis using h1 h2 loop_iteration_refines_scan [OF h1 h2]
    by (simp add: sc numeral_eq_Suc)
qed

end
