(* ===== verification/Polling_Refinement.thy ===== *)
theory Polling_Refinement
  imports Interleaving
begin













end
