(* ===== verification/Reporter.thy ===== *)
theory Reporter
  imports Simulation
begin

text \<open>
  \<^verbatim>\<open>Simulation.generate_convergence_plot\<close> (\<^verbatim>\<open>src/Simulation.py\<close>, lines
  33--57). For each \<open>j\<close> in \<^verbatim>\<open>range(number_of_nodes)\<close> it reads
  \<^verbatim>\<open>nodes[j]\<close> (an \<^verbatim>\<open>IndexError\<close> when the graph has fewer nodes), computes
  \<^verbatim>\<open>np.sqrt(np.sum((x0 - xi) ** 2))\<close> for every estimate \<open>xi\<close> of the node's
  history (numpy broadcasting: a \<^verbatim>\<open>ValueError\<close> when the shapes do not match) and
  plots the distance series on the left axes and the raw history on the right axes,
  labelled \<^verbatim>\<open>node_{j}\<close>. It then sets legends, titles, labels and grids, saves
  \<^verbatim>\<open>books_read.png\<close> and shows the figure. The model returns the figure.
\<close>

subsection \<open>Numpy arithmetic on one-dimensional arrays\<close>

text \<open>\<^verbatim>\<open>a - b\<close> on shapes \<open>(n,)\<close> and \<open>(m,)\<close>: elementwise when \<open>n = m\<close>,
  broadcasting a length-1 operand otherwise, \<^verbatim>\<open>ValueError\<close> when neither applies.\<close>

definition np_sub :: "vec \<Rightarrow> vec \<Rightarrow> error + vec" where
  "np_sub a b =
     (if length a = length b then Inr (map2 (-) a b)
      else if length a = 1 then Inr (map (\<lambda>y. hd a - y) b)
      else if length b = 1 then Inr (map (\<lambda>x. x - hd b) a)
      else Inl ValueError)"

text \<open>Line 42: \<^verbatim>\<open>dst = np.sqrt(np.sum((x0 - xi) ** 2))\<close>.\<close>

definition dst :: "vec \<Rightarrow> vec \<Rightarrow> error + real" where
  "dst p xi = bind_res (np_sub p xi) (\<lambda>d. Inr (sqrt (sum_list (map (\<lambda>v. v ^ 2) d))))"

text \<open>The Euclidean distance of two vectors of the same dimension: the reference the
  reporter is meant to compute (spec.md 4.5 and 8).\<close>

definition euclid :: "vec \<Rightarrow> vec \<Rightarrow> real" where
  "euclid a b = sqrt (sum_list (map2 (\<lambda>x y. (x - y) ^ 2) a b))"

subsection \<open>The node labels\<close>

text \<open>Python's \<^verbatim>\<open>str\<close> of a non-negative integer, and \<^verbatim>\<open>f'node_{j}'\<close>.\<close>

definition digit_char :: "nat \<Rightarrow> char" where
  "digit_char d = char_of (48 + d)"

fun nat_str :: "nat \<Rightarrow> string" where
  "nat_str n = (if n < 10 then [digit_char n] else nat_str (n div 10) @ [digit_char (n mod 10)])"

declare nat_str.simps [simp del]

definition node_label :: "nat \<Rightarrow> string" where
  "node_label j = ''node_'' @ nat_str j"

subsection \<open>The figure\<close>

record 'd axes =
  lines :: "('d \<times> string) list"
  title :: string
  xlabel :: string
  ylabel :: string
  legend_loc :: "string option"
  grid :: bool

record figure =
  fig_size :: "nat \<times> nat"
  ax0 :: "real list axes"
  ax1 :: "vec list axes"
  saved_to :: "string list"
  shown :: bool

definition empty_axes :: "'d axes" where
  "empty_axes = \<lparr>lines = [], title = [], xlabel = [], ylabel = [], legend_loc = None, grid = False\<rparr>"

text \<open>Line 38: \<^verbatim>\<open>plt.subplots(1, 2, figsize=(13, 8))\<close>.\<close>

definition subplots :: figure where
  "subplots = \<lparr>fig_size = (13, 8), ax0 = empty_axes, ax1 = empty_axes, saved_to = [], shown = False\<rparr>"

definition plot :: "'d axes \<Rightarrow> 'd \<Rightarrow> string \<Rightarrow> 'd axes" where
  "plot ax d lbl = ax\<lparr>lines := lines ax @ [(d, lbl)]\<rparr>"

text \<open>Line 45: \<^verbatim>\<open>axs[1].plot(history)\<close> converts the list of estimate vectors
  to a two-dimensional numpy array, one line per component; a ragged list (estimates of
  different dimensions) raises \<^verbatim>\<open>ValueError\<close>.\<close>

definition plot_matrix :: "vec list axes \<Rightarrow> vec list \<Rightarrow> string \<Rightarrow> error + vec list axes" where
  "plot_matrix ax h lbl =
     (if list_all (\<lambda>x. length x = length (hd h)) h then Inr (plot ax h lbl) else Inl ValueError)"

text \<open>Lines 46--53 for one of the axes.\<close>

definition decorate :: "'d axes \<Rightarrow> string \<Rightarrow> string \<Rightarrow> string \<Rightarrow> string \<Rightarrow> 'd axes" where
  "decorate ax loc t xl yl = ax\<lparr>legend_loc := Some loc, title := t, xlabel := xl, ylabel := yl\<rparr>"

subsection \<open>The loops\<close>

text \<open>Lines 40--43: the inner loop over the history of one node, appending to
  \<^verbatim>\<open>distances[j]\<close>.\<close>

function dist_loop :: "vec \<Rightarrow> vec list \<Rightarrow> nat \<Rightarrow> real list \<Rightarrow> error + real list" where
  "dist_loop p h i acc =
     (if i < length h then bind_res (dst p (h ! i)) (\<lambda>d. dist_loop p h (Suc i) (acc @ [d]))
      else Inr acc)"
  by pat_completeness auto
termination
  by (relation "measure (\<lambda>(p, h, i, acc). length h - i)") (auto simp: bind_res_def)

declare dist_loop.simps [simp del]

text \<open>The state the outer loop updates: the local \<^verbatim>\<open>distances\<close> and the figure.\<close>

record plot_state =
  distances :: "real list list"
  fig :: figure

text \<open>Lines 39--45: the outer loop over \<^verbatim>\<open>range(number_of_nodes)\<close>.\<close>

function plot_loop :: "vec \<Rightarrow> node list \<Rightarrow> nat \<Rightarrow> nat \<Rightarrow> plot_state \<Rightarrow> error + plot_state" where
  "plot_loop p ns n j st =
     (if j < n then
        bind_res (py_nth ns j) (\<lambda>nd.
        bind_res (dist_loop p (all_calculated_xis nd) 0 (distances st ! j)) (\<lambda>dj.
        bind_res (py_nth ns j) (\<lambda>nd'.
        bind_res (plot_matrix (ax1 (fig st)) (all_calculated_xis nd') (node_label j)) (\<lambda>a1.
        plot_loop p ns n (Suc j)
          (st\<lparr>distances := (distances st)[j := dj],
              fig := (fig st)\<lparr>ax0 := plot (ax0 (fig st)) dj (node_label j), ax1 := a1\<rparr>\<rparr>)))))
      else Inr st)"
  by pat_completeness auto
termination
  by (relation "measure (\<lambda>(p, ns, n, j, st). n - j)") (auto simp: bind_res_def)

declare plot_loop.simps [simp del]

text \<open>Lines 46--57 after the loop.\<close>

definition finish_figure :: "figure \<Rightarrow> figure" where
  "finish_figure f =
     f\<lparr>ax0 := (decorate (ax0 f) ''lower left'' ''Evolution of the error on xi'' ''Iteration''
                 ''Distance till optimum point'')\<lparr>grid := True\<rparr>,
       ax1 := (decorate (ax1 f) ''upper right'' ''Evolution xi'' ''Iteration''
                 ''Point value evolution'')\<lparr>grid := True\<rparr>,
       saved_to := saved_to f @ [''books_read.png''],
       shown := True\<rparr>"

text \<open>The whole method. It reads the module-level \<^verbatim>\<open>simulation\<close> (lines 36--45),
  the one instance the script creates, so the model takes that instance.\<close>

definition generate_convergence_plot :: "simulation \<Rightarrow> error + figure" where
  "generate_convergence_plot sim =
     (let n = nat (number_of_nodes (simulation_specification sim)) in
      bind_res (get_network_graph sim) (\<lambda>g.
      bind_res (plot_loop (optimum_point g) (nodes g) n 0
                  \<lparr>distances = replicate n [], fig = subplots\<rparr>) (\<lambda>st.
      Inr (finish_figure (fig st)))))"

text \<open>What the report is meant to draw (spec.md 4.5): per node, in index order, the
  Euclidean distances of its estimates to the optimum on the left and its raw estimates
  on the right, both labelled by the node; decorated, saved and shown.\<close>

definition expected_figure :: "vec \<Rightarrow> node list \<Rightarrow> nat \<Rightarrow> figure" where
  "expected_figure p ns n = finish_figure (subplots\<lparr>
     ax0 := empty_axes\<lparr>lines := map (\<lambda>k. (map (euclid p) (all_calculated_xis (ns ! k)), node_label k)) [0..<n]\<rparr>,
     ax1 := empty_axes\<lparr>lines := map (\<lambda>k. (all_calculated_xis (ns ! k), node_label k)) [0..<n]\<rparr>\<rparr>)"

text \<open>A finished two-node run for the witnesses: node 0 produced one estimate
  \<open>(3, 4)\<close>, node 1 none; the optimum is the origin.\<close>

definition demo_graph :: network_graph where
  "demo_graph = \<lparr>nodes = [new_node\<lparr>all_calculated_xis := [[3, 4]]\<rparr>, new_node],
                  optimum_point = [0, 0], edges = [(0, 1)]\<rparr>"

definition demo_sim :: "int \<Rightarrow> simulation" where
  "demo_sim n = \<lparr>simulation_specification = SimulationSpecification\<lparr>number_of_nodes := n\<rparr>,
                  network_graph = Some demo_graph\<rparr>"

text \<open>A graph whose single node produced estimates of dimensions 1 and 2.\<close>

definition ragged_graph :: network_graph where
  "ragged_graph = \<lparr>nodes = [new_node\<lparr>all_calculated_xis := [[1], [1, 2]]\<rparr>],
                    optimum_point = [0], edges = []\<rparr>"

subsection \<open>Lemmas\<close>

lemma np_sub_same_length: "length a = length b \<Longrightarrow> np_sub a b = Inr (map2 (-) a b)"
  by (simp add: np_sub_def)

lemma dst_euclid: "length a = length b \<Longrightarrow> dst a b = Inr (euclid a b)"
  by (simp add: dst_def np_sub_same_length euclid_def comp_def split_def)

lemma dist_loop_eq:
  "dist_loop p h i acc = bind_res (seq_res (map (dst p) (drop i h))) (\<lambda>ds. Inr (acc @ ds))"
proof (induction p h i acc rule: dist_loop.induct)
  case (1 p h i acc)
  show ?case
  proof (cases "i < length h")
    case True
    then have "drop i h = h ! i # drop (Suc i) h" by (simp add: Cons_nth_drop_Suc)
    with True "1.IH" show ?thesis
      by (subst dist_loop.simps) (auto simp: bind_res_def split: sum.splits)
  next
    case False
    then show ?thesis by (subst dist_loop.simps) simp
  qed
qed

lemma plot_matrix_ok: "\<forall>x \<in> set h. length x = m \<Longrightarrow> plot_matrix ax h lbl = Inr (plot ax h lbl)"
  by (cases h) (simp_all add: plot_matrix_def list_all_iff)

lemma plot_loop_ok:
  assumes "n \<le> length ns"
    and "\<forall>k. j \<le> k \<and> k < n \<longrightarrow> seq_res (map (dst p) (all_calculated_xis (ns ! k))) = Inr (S k)"
    and "\<forall>k. j \<le> k \<and> k < n \<longrightarrow> (\<exists>m. \<forall>x \<in> set (all_calculated_xis (ns ! k)). length x = m)"
    and "\<forall>k. j \<le> k \<and> k < n \<longrightarrow> distances st ! k = []"
    and "n \<le> length (distances st)"
  shows "\<exists>st'. plot_loop p ns n j st = Inr st' \<and>
    fig st' = (fig st)\<lparr>
      ax0 := (ax0 (fig st))\<lparr>lines := lines (ax0 (fig st)) @ map (\<lambda>k. (S k, node_label k)) [j..<n]\<rparr>,
      ax1 := (ax1 (fig st))\<lparr>lines := lines (ax1 (fig st)) @
               map (\<lambda>k. (all_calculated_xis (ns ! k), node_label k)) [j..<n]\<rparr>\<rparr>"
  using assms
proof (induction p ns n j st rule: plot_loop.induct)
  case (1 p ns n j st)
  show ?case
  proof (cases "j < n")
    case True
    let ?st = "st\<lparr>distances := (distances st)[j := S j],
              fig := (fig st)\<lparr>ax0 := plot (ax0 (fig st)) (S j) (node_label j),
                              ax1 := plot (ax1 (fig st)) (all_calculated_xis (ns ! j)) (node_label j)\<rparr>\<rparr>"
    from True "1.prems" have nth: "py_nth ns j = Inr (ns ! j)" by simp
    from True "1.prems" have series: "dist_loop p (all_calculated_xis (ns ! j)) 0 (distances st ! j) = Inr (S j)"
      by (simp add: dist_loop_eq)
    from True "1.prems" obtain m where "\<forall>x \<in> set (all_calculated_xis (ns ! j)). length x = m" by blast
    then have pm: "plot_matrix (ax1 (fig st)) (all_calculated_xis (ns ! j)) (node_label j) =
        Inr (plot (ax1 (fig st)) (all_calculated_xis (ns ! j)) (node_label j))"
      by (rule plot_matrix_ok)
    from True "1.prems" have "\<exists>st'. plot_loop p ns n (Suc j) ?st = Inr st' \<and>
      fig st' = (fig ?st)\<lparr>
        ax0 := (ax0 (fig ?st))\<lparr>lines := lines (ax0 (fig ?st)) @ map (\<lambda>k. (S k, node_label k)) [Suc j..<n]\<rparr>,
        ax1 := (ax1 (fig ?st))\<lparr>lines := lines (ax1 (fig ?st)) @
               map (\<lambda>k. (all_calculated_xis (ns ! k), node_label k)) [Suc j..<n]\<rparr>\<rparr>"
      by (intro "1.IH" [OF True]) auto
    with True nth series pm show ?thesis
      by (subst plot_loop.simps) (auto simp: plot_def upt_conv_Cons)
  next
    case False
    then show ?thesis by (subst plot_loop.simps) simp
  qed
qed

lemma plot_loop_index_error:
  assumes "length ns < n" and "j \<le> length ns"
    and "\<forall>k. j \<le> k \<and> k < length ns \<longrightarrow> (\<exists>S. seq_res (map (dst p) (all_calculated_xis (ns ! k))) = Inr S)"
    and "\<forall>k. j \<le> k \<and> k < length ns \<longrightarrow> (\<exists>m. \<forall>x \<in> set (all_calculated_xis (ns ! k)). length x = m)"
  shows "plot_loop p ns n j st = Inl IndexError"
  using assms
proof (induction p ns n j st rule: plot_loop.induct)
  case (1 p ns n j st)
  show ?case
  proof (cases "j < length ns")
    case True
    with "1.prems" obtain S where "seq_res (map (dst p) (all_calculated_xis (ns ! j))) = Inr S"
      by auto
    moreover from True "1.prems" obtain m where "\<forall>x \<in> set (all_calculated_xis (ns ! j)). length x = m"
      by blast
    then have "plot_matrix (ax1 (fig st)) (all_calculated_xis (ns ! j)) (node_label j) =
        Inr (plot (ax1 (fig st)) (all_calculated_xis (ns ! j)) (node_label j))"
      by (rule plot_matrix_ok)
    ultimately show ?thesis using True "1.prems" "1.IH"
      by (subst plot_loop.simps) (simp add: dist_loop_eq)
  next
    case False
    with "1.prems" show ?thesis by (subst plot_loop.simps) simp
  qed
qed

lemma series_euclid:
  "\<forall>x \<in> set h. length x = length p \<Longrightarrow> seq_res (map (dst p) h) = Inr (map (euclid p) h)"
  by (rule seq_res_map_Inr) (simp add: dst_euclid)

lemma generate_ok:
  assumes g: "network_graph sim = Some g"
    and n: "nat (number_of_nodes (simulation_specification sim)) \<le> length (nodes g)"
    and dims: "\<forall>k < length (nodes g). \<forall>x \<in> set (all_calculated_xis (nodes g ! k)).
                 length x = length (optimum_point g)"
  shows "generate_convergence_plot sim =
    Inr (expected_figure (optimum_point g) (nodes g) (nat (number_of_nodes (simulation_specification sim))))"
proof -
  let ?n = "nat (number_of_nodes (simulation_specification sim))"
  let ?S = "\<lambda>k. map (euclid (optimum_point g)) (all_calculated_xis (nodes g ! k))"
  let ?st = "\<lparr>distances = replicate ?n [], fig = subplots\<rparr>"
  have "seq_res (map (dst (optimum_point g)) (all_calculated_xis (nodes g ! k))) = Inr (?S k)"
    if "k < ?n" for k
  proof -
    from that n have "k < length (nodes g)" by simp
    with dims show ?thesis by (simp add: series_euclid)
  qed
  moreover have "\<exists>m. \<forall>x \<in> set (all_calculated_xis (nodes g ! k)). length x = m" if "k < ?n" for k
    using that n dims by (intro exI [of _ "length (optimum_point g)"]) (meson less_le_trans)
  ultimately obtain st' where run: "plot_loop (optimum_point g) (nodes g) ?n 0 ?st = Inr st'"
    and fig: "fig st' = subplots\<lparr>
      ax0 := (ax0 subplots)\<lparr>lines := lines (ax0 subplots) @ map (\<lambda>k. (?S k, node_label k)) [0..<?n]\<rparr>,
      ax1 := (ax1 subplots)\<lparr>lines := lines (ax1 subplots) @
               map (\<lambda>k. (all_calculated_xis (nodes g ! k), node_label k)) [0..<?n]\<rparr>\<rparr>"
    using plot_loop_ok [OF n, of 0 "optimum_point g" ?S ?st] by auto
  show ?thesis
    using g run fig
    by (simp add: generate_convergence_plot_def get_network_graph_def expected_figure_def Let_def subplots_def empty_axes_def)
qed

text \<open>The exceptions the report can raise: \<^verbatim>\<open>ValueError\<close> from numpy, and
  \<^verbatim>\<open>IndexError\<close> only when the loop runs past the end of the node list.\<close>

lemma dst_Inl: "dst p x = Inl e \<Longrightarrow> e = ValueError"
  by (auto simp: dst_def np_sub_def bind_res_eq_Inl split: if_splits)

lemma dist_loop_Inl: "dist_loop p h i acc = Inl e \<Longrightarrow> e = ValueError"
  by (auto simp: dist_loop_eq bind_res_eq_Inl dest!: seq_res_map_Inl dst_Inl)

lemma plot_loop_Inl:
  "plot_loop p ns n j st = Inl e \<Longrightarrow> e = ValueError \<or> (e = IndexError \<and> length ns < n)"
proof (induction p ns n j st rule: plot_loop.induct)
  case (1 p ns n j st)
  show ?case
  proof (cases "j < n")
    case True
    show ?thesis
    proof (cases "j < length ns")
      case False
      with True "1.prems" show ?thesis by (subst (asm) plot_loop.simps) simp
    next
      case inr: True
      with True "1.prems" "1.IH" [OF True] show ?thesis
        by (subst (asm) plot_loop.simps)
           (auto simp: bind_res_eq_Inl plot_matrix_def dest: dist_loop_Inl split: if_splits)
    qed
  next
    case False
    with "1.prems" show ?thesis by (subst (asm) plot_loop.simps) simp
  qed
qed

lemma generate_Inl:
  "generate_convergence_plot sim = Inl e \<Longrightarrow>
   (e = AttributeError \<and> network_graph sim = None) \<or>
   (\<exists>g. network_graph sim = Some g \<and>
      (e = ValueError \<or> (e = IndexError \<and> length (nodes g) < nat (number_of_nodes (simulation_specification sim)))))"
  by (auto simp: generate_convergence_plot_def get_network_graph_def Let_def bind_res_eq_Inl
      split: option.splits dest: plot_loop_Inl)

lemma plot_loop_ragged:
  "j \<le> k \<Longrightarrow> k < n \<Longrightarrow> k < length ns \<Longrightarrow>
   \<not> list_all (\<lambda>x. length x = length (hd (all_calculated_xis (ns ! k)))) (all_calculated_xis (ns ! k)) \<Longrightarrow>
   plot_loop p ns n j st = Inl ValueError"
proof (induction p ns n j st rule: plot_loop.induct)
  case (1 p ns n j st)
  from "1.prems" have j: "j < n" "j < length ns" by auto
  show ?case
  proof (cases "dist_loop p (all_calculated_xis (ns ! j)) 0 (distances st ! j)")
    case (Inl e)
    with j dist_loop_Inl [OF Inl] show ?thesis by (subst plot_loop.simps) simp
  next
    case (Inr dj)
    show ?thesis
    proof (cases "j = k")
      case True
      with j Inr "1.prems" show ?thesis by (subst plot_loop.simps) (simp add: plot_matrix_def)
    next
      case False
      with j Inr "1.prems" "1.IH" [OF j(1)] show ?thesis
        by (subst plot_loop.simps) (simp add: plot_matrix_def)
    qed
  qed
qed

text \<open>The loop reads a node only through its history.\<close>

lemma plot_loop_histories:
  "map all_calculated_xis ns = map all_calculated_xis ns' \<Longrightarrow>
   plot_loop p ns n j st = plot_loop p ns' n j st"
proof (induction p ns n j st rule: plot_loop.induct)
  case (1 p ns n j st)
  from "1.prems" have len: "length ns = length ns'" by (metis length_map)
  from "1.prems" have h: "k < length ns \<Longrightarrow> all_calculated_xis (ns ! k) = all_calculated_xis (ns' ! k)" for k
    by (metis len nth_map)
  show ?case
  proof (cases "j < n \<and> j < length ns")
    case True
    with "1.IH" "1.prems" h len show ?thesis
      by (subst (1 2) plot_loop.simps) (simp add: bind_res_def split: sum.split)
  next
    case False
    with len show ?thesis by (subst (1 2) plot_loop.simps) auto
  qed
qed

lemma demo_facts:
  "network_graph (demo_sim n) = Some demo_graph"
  "number_of_nodes (simulation_specification (demo_sim n)) = n"
  "\<forall>k < length (nodes demo_graph). \<forall>x \<in> set (all_calculated_xis (nodes demo_graph ! k)).
     length x = length (optimum_point demo_graph)"
  by (auto simp: demo_sim_def demo_graph_def SimulationSpecification_def new_node_def less_Suc_eq)

subsection \<open>Properties of the report\<close>

text \<open>C13: spec.md 8: for every node and every iteration index, the plotted distance
  is the Euclidean norm of the estimate minus the optimum, when the graph has the nodes
  the specification counts and every estimate has the optimum's dimension.\<close>

theorem generate_convergence_plot_distances:
  assumes "network_graph sim = Some g"
    and "nat (number_of_nodes (simulation_specification sim)) \<le> length (nodes g)"
    and "\<forall>k < length (nodes g). \<forall>x \<in> set (all_calculated_xis (nodes g ! k)).
           length x = length (optimum_point g)"
  shows "\<exists>f. generate_convergence_plot sim = Inr f \<and>
    length (lines (ax0 f)) = nat (number_of_nodes (simulation_specification sim)) \<and>
    (\<forall>k < nat (number_of_nodes (simulation_specification sim)).
       fst (lines (ax0 f) ! k) = map (euclid (optimum_point g)) (all_calculated_xis (nodes g ! k)))"
  using generate_ok [OF assms]
  by (simp add: expected_figure_def finish_figure_def decorate_def)

theorem generate_convergence_plot_distances_witness:
  "network_graph (demo_sim 2) = Some demo_graph \<and>
   nat (number_of_nodes (simulation_specification (demo_sim 2))) \<le> length (nodes demo_graph) \<and>
   (\<exists>f. generate_convergence_plot (demo_sim 2) = Inr f \<and>
      length (lines (ax0 f)) = nat (number_of_nodes (simulation_specification (demo_sim 2))) \<and>
      (\<forall>k < nat (number_of_nodes (simulation_specification (demo_sim 2))).
         fst (lines (ax0 f) ! k) = map (euclid (optimum_point demo_graph)) (all_calculated_xis (nodes demo_graph ! k))))"
proof -
  have h2: "nat (number_of_nodes (simulation_specification (demo_sim 2))) \<le> length (nodes demo_graph)"
    by (simp add: demo_facts demo_graph_def)
  show ?thesis
    using demo_facts(1) h2 generate_convergence_plot_distances [OF demo_facts(1) h2 demo_facts(3)] by blast
qed

text \<open>C17: the layout of the report: the left panel has one line per node labelled
  \<^verbatim>\<open>node_0\<close>, \<^verbatim>\<open>node_1\<close>, ... in index order; the right panel plots each
  node's raw history under the same label; both panels are titled, labelled, legended
  and gridded; the figure is saved to \<^verbatim>\<open>books_read.png\<close> and shown.\<close>

theorem generate_convergence_plot_layout:
  assumes "network_graph sim = Some g"
    and "nat (number_of_nodes (simulation_specification sim)) \<le> length (nodes g)"
    and "\<forall>k < length (nodes g). \<forall>x \<in> set (all_calculated_xis (nodes g ! k)).
           length x = length (optimum_point g)"
  shows "\<exists>f. generate_convergence_plot sim = Inr f \<and>
    map snd (lines (ax0 f)) = map node_label [0..<nat (number_of_nodes (simulation_specification sim))] \<and>
    lines (ax1 f) = map (\<lambda>k. (all_calculated_xis (nodes g ! k), node_label k))
                      [0..<nat (number_of_nodes (simulation_specification sim))] \<and>
    title (ax0 f) = ''Evolution of the error on xi'' \<and> title (ax1 f) = ''Evolution xi'' \<and>
    legend_loc (ax0 f) = Some ''lower left'' \<and> legend_loc (ax1 f) = Some ''upper right'' \<and>
    grid (ax0 f) \<and> grid (ax1 f) \<and> saved_to f = [''books_read.png''] \<and> shown f"
  using generate_ok [OF assms]
  by (simp add: expected_figure_def finish_figure_def decorate_def subplots_def comp_def)

theorem generate_convergence_plot_layout_witness:
  "network_graph (demo_sim 2) = Some demo_graph \<and>
   nat (number_of_nodes (simulation_specification (demo_sim 2))) \<le> length (nodes demo_graph) \<and>
   (\<exists>f. generate_convergence_plot (demo_sim 2) = Inr f \<and>
    map snd (lines (ax0 f)) = map node_label [0..<nat (number_of_nodes (simulation_specification (demo_sim 2)))] \<and>
    lines (ax1 f) = map (\<lambda>k. (all_calculated_xis (nodes demo_graph ! k), node_label k))
                      [0..<nat (number_of_nodes (simulation_specification (demo_sim 2)))] \<and>
    title (ax0 f) = ''Evolution of the error on xi'' \<and> title (ax1 f) = ''Evolution xi'' \<and>
    legend_loc (ax0 f) = Some ''lower left'' \<and> legend_loc (ax1 f) = Some ''upper right'' \<and>
    grid (ax0 f) \<and> grid (ax1 f) \<and> saved_to f = [''books_read.png''] \<and> shown f)"
proof -
  have h2: "nat (number_of_nodes (simulation_specification (demo_sim 2))) \<le> length (nodes demo_graph)"
    by (simp add: demo_facts demo_graph_def)
  show ?thesis
    using demo_facts(1) h2 generate_convergence_plot_layout [OF demo_facts(1) h2 demo_facts(3)] by blast
qed

text \<open>C14: when the specification counts more nodes than the graph has, the report
  raises \<^verbatim>\<open>IndexError\<close> at \<^verbatim>\<open>nodes[j]\<close> (line 40) instead of drawing.\<close>

theorem generate_convergence_plot_index_error:
  assumes "network_graph sim = Some g"
    and "length (nodes g) < nat (number_of_nodes (simulation_specification sim))"
    and "\<forall>k < length (nodes g). \<forall>x \<in> set (all_calculated_xis (nodes g ! k)).
           length x = length (optimum_point g)"
  shows "generate_convergence_plot sim = Inl IndexError"
proof -
  have "plot_loop (optimum_point g) (nodes g) (nat (number_of_nodes (simulation_specification sim))) 0 st
          = Inl IndexError" for st
    using assms(2,3) by (intro plot_loop_index_error) (auto intro: series_euclid)
  with assms(1) show ?thesis
    by (simp add: generate_convergence_plot_def get_network_graph_def Let_def)
qed

theorem generate_convergence_plot_index_error_witness:
  "network_graph (demo_sim 3) = Some demo_graph \<and>
   length (nodes demo_graph) < nat (number_of_nodes (simulation_specification (demo_sim 3))) \<and>
   generate_convergence_plot (demo_sim 3) = Inl IndexError"
proof -
  have h2: "length (nodes demo_graph) < nat (number_of_nodes (simulation_specification (demo_sim 3)))"
    by (simp add: demo_facts demo_graph_def)
  show ?thesis
    using demo_facts(1) h2 generate_convergence_plot_index_error [OF demo_facts(1) h2 demo_facts(3)] by blast
qed

text \<open>C16: a one-dimensional optimum is broadcast silently: against an estimate of any
  dimension the code reports the distance to the point \<open>(t, ..., t)\<close>, where spec.md
  4.5 asks for the distance between the estimate and the optimum.\<close>

theorem dst_broadcast_scalar:
  "dst [t] xi = Inr (euclid (replicate (length xi) t) xi)"
proof (cases "length xi = 1")
  case True
  then show ?thesis by (simp add: dst_euclid)
next
  case False
  then show ?thesis
    by (simp add: dst_def np_sub_def euclid_def zip_replicate1 comp_def)
qed

text \<open>C24: the report raises only \<^verbatim>\<open>AttributeError\<close> (exactly when no graph was
  generated), \<^verbatim>\<open>IndexError\<close> (only when the specification counts more nodes than the
  graph holds) or numpy's \<^verbatim>\<open>ValueError\<close>; no other exception escapes it.\<close>

theorem generate_convergence_plot_errors:
  assumes "generate_convergence_plot sim = Inl e"
  shows "e \<in> {AttributeError, IndexError, ValueError} \<and>
    (e = AttributeError \<longleftrightarrow> network_graph sim = None) \<and>
    (e = IndexError \<longrightarrow> (\<exists>g. network_graph sim = Some g \<and>
       length (nodes g) < nat (number_of_nodes (simulation_specification sim))))"
proof (cases "network_graph sim")
  case None
  with assms show ?thesis by (simp add: generate_convergence_plot_def get_network_graph_def Let_def)
next
  case (Some g)
  with generate_Inl [OF assms] show ?thesis by auto
qed

theorem generate_convergence_plot_errors_witness:
  "generate_convergence_plot Simulation_init = Inl AttributeError \<and>
   AttributeError \<in> {AttributeError, IndexError, ValueError} \<and> network_graph Simulation_init = None"
proof -
  have h: "generate_convergence_plot Simulation_init = Inl AttributeError"
    by (simp add: generate_convergence_plot_def get_network_graph_def Simulation_init_def Let_def)
  show ?thesis using h generate_convergence_plot_errors [OF h] by simp
qed

text \<open>C27: the report is a function of the frozen histories and the optimum: two
  graphs whose nodes have the same histories give the same figure (or the same
  exception), whatever their latches and thread flags; so invoking the report twice on
  the same frozen histories draws identical series (spec.md 8, idempotence).\<close>

theorem generate_convergence_plot_histories_only:
  assumes "map all_calculated_xis (nodes g) = map all_calculated_xis (nodes g')"
    and "optimum_point g = optimum_point g'"
  shows "generate_convergence_plot (sim\<lparr>network_graph := Some g\<rparr>) =
         generate_convergence_plot (sim\<lparr>network_graph := Some g'\<rparr>)"
  using plot_loop_histories [OF assms(1)] assms(2)
  by (simp add: generate_convergence_plot_def get_network_graph_def)

theorem generate_convergence_plot_histories_only_witness:
  "map all_calculated_xis (nodes demo_graph) =
     map all_calculated_xis (nodes (demo_graph\<lparr>nodes := map (\<lambda>n. n\<lparr>result_founded := True, started := True\<rparr>) (nodes demo_graph)\<rparr>)) \<and>
   optimum_point demo_graph = optimum_point (demo_graph\<lparr>nodes := map (\<lambda>n. n\<lparr>result_founded := True, started := True\<rparr>) (nodes demo_graph)\<rparr>) \<and>
   generate_convergence_plot (demo_sim 2\<lparr>network_graph := Some demo_graph\<rparr>) =
   generate_convergence_plot (demo_sim 2\<lparr>network_graph := Some (demo_graph\<lparr>nodes := map (\<lambda>n. n\<lparr>result_founded := True, started := True\<rparr>) (nodes demo_graph)\<rparr>)\<rparr>)"
proof -
  let ?g' = "demo_graph\<lparr>nodes := map (\<lambda>n. n\<lparr>result_founded := True, started := True\<rparr>) (nodes demo_graph)\<rparr>"
  have h1: "map all_calculated_xis (nodes demo_graph) = map all_calculated_xis (nodes ?g')" by simp
  have h2: "optimum_point demo_graph = optimum_point ?g'" by simp
  show ?thesis using h1 h2 generate_convergence_plot_histories_only [OF h1 h2] by blast
qed

text \<open>C15: line 45 hands each history to matplotlib as one array: when some node
  that the loop reaches has estimates of different dimensions, the report raises
  \<^verbatim>\<open>ValueError\<close> and no figure is saved, although line 42 may have computed every
  distance by broadcasting; the failure of one node's series aborts the whole report.\<close>

theorem generate_convergence_plot_ragged:
  assumes "network_graph sim = Some g"
    and "k < nat (number_of_nodes (simulation_specification sim))" and "k < length (nodes g)"
    and "\<not> list_all (\<lambda>x. length x = length (hd (all_calculated_xis (nodes g ! k))))
           (all_calculated_xis (nodes g ! k))"
  shows "generate_convergence_plot sim = Inl ValueError"
  using assms plot_loop_ragged [of 0 k _ "nodes g" "optimum_point g"]
  by (simp add: generate_convergence_plot_def get_network_graph_def Let_def)

theorem generate_convergence_plot_ragged_witness:
  "network_graph (Simulation_init\<lparr>simulation_specification := SimulationSpecification\<lparr>number_of_nodes := 1\<rparr>,
       network_graph := Some ragged_graph\<rparr>) = Some ragged_graph \<and>
   0 < nat (number_of_nodes (SimulationSpecification\<lparr>number_of_nodes := 1\<rparr>)) \<and>
   0 < length (nodes ragged_graph) \<and>
   \<not> list_all (\<lambda>x. length x = length (hd (all_calculated_xis (nodes ragged_graph ! 0))))
       (all_calculated_xis (nodes ragged_graph ! 0)) \<and>
   dst (optimum_point ragged_graph) [1, 2] = Inr (sqrt 5) \<and>
   generate_convergence_plot (Simulation_init\<lparr>simulation_specification := SimulationSpecification\<lparr>number_of_nodes := 1\<rparr>,
       network_graph := Some ragged_graph\<rparr>) = Inl ValueError"
proof -
  let ?sim = "Simulation_init\<lparr>simulation_specification := SimulationSpecification\<lparr>number_of_nodes := 1\<rparr>,
       network_graph := Some ragged_graph\<rparr>"
  have h1: "network_graph ?sim = Some ragged_graph" by simp
  have h2: "0 < nat (number_of_nodes (simulation_specification ?sim))"
    by (simp add: SimulationSpecification_def)
  have h3: "0 < length (nodes ragged_graph)" by (simp add: ragged_graph_def)
  have h4: "\<not> list_all (\<lambda>x. length x = length (hd (all_calculated_xis (nodes ragged_graph ! 0))))
       (all_calculated_xis (nodes ragged_graph ! 0))" by (simp add: ragged_graph_def)
  have d: "dst (optimum_point ragged_graph) [1, 2] = Inr (sqrt 5)"
    by (simp add: ragged_graph_def dst_def np_sub_def)
  show ?thesis using h1 h2 h3 h4 d generate_convergence_plot_ragged [OF h1 h2 h3 h4]
    by (simp add: SimulationSpecification_def)
qed

end
