(* ===== verification/Spec2Isabelle.thy ===== *)
theory Spec2Isabelle
  imports Polling_Refinement Reporter
begin

text \<open>
  \<^bold>\<open>A verified model of the nrc-estimator simulation orchestrator.\<close>

  \<^emph>\<open>The program.\<close> \<^verbatim>\<open>src/Simulation.py\<close> is the whole source. Its class
  \<^verbatim>\<open>Simulation\<close> reads a run configuration (\<^verbatim>\<open>set_simulation_specification\<close>,
  lines 19--26, calling the setters of the \<^verbatim>\<open>SimulationSpecification\<close> module),
  builds a \<^verbatim>\<open>NetworkGraph\<close> of nodes and a ground-truth \<^verbatim>\<open>optimum_point\<close>
  (\<^verbatim>\<open>generate_network_graph\<close>, lines 28--31), and the module script (lines
  71--91) starts every node as a daemon thread (lines 80--82), blocks in
  \<^verbatim>\<open>wait_until_result_founded\<close> (lines 59--68) until a scan finds every node's latch
  \<^verbatim>\<open>has_result_founded()\<close> set, draws the convergence report
  (\<^verbatim>\<open>generate_convergence_plot\<close>, lines 33--57) and exits. The modules
  \<^verbatim>\<open>SimulationSpecification\<close> and \<^verbatim>\<open>NetworkGraph\<close> (with its node threads)
  are not in \<^verbatim>\<open>src/\<close>; they are modelled from spec.md at the interface the
  orchestrator uses, and marked so in the manifest.

  \<^emph>\<open>The theories.\<close>
  \<^item> \<open>Prelude\<close>: the exception datatype \<open>error\<close>, the bind \<open>bind_res\<close> of
    \<open>error + 'a\<close> (a raise is \<open>Inl\<close>), \<open>seq_res\<close>, Python indexing \<open>py_nth\<close>.
  \<^item> \<open>Node\<close>: record \<open>node\<close> (history \<^verbatim>\<open>all_calculated_xis\<close>, latch,
    \<^verbatim>\<open>daemon\<close>, \<^verbatim>\<open>started\<close>); one iteration of \<^verbatim>\<open>run()\<close> appends an estimate
    and may set the latch, never reset it (\<open>node_iteration\<close>, \<open>node_run\<close>);
    \<^verbatim>\<open>Thread.start\<close> raises on a second call (\<open>thread_start\<close>). The numerical rule
    is the collaborator's: it enters as the estimates and acceptance decisions.
  \<^item> \<open>Specification\<close>: record \<open>simulation_specification\<close> and its validating setters.
  \<^item> \<open>NetworkGraph\<close>: the constructor \<open>NetworkGraph\<close> over a drawn \<open>topology\<close>
    with the connectivity check \<open>connected\<close> (breadth-first \<open>reach\<close>), raising
    \<open>DisconnectedTopologyError\<close>; \<open>expand_set\<close> is one round on sets of
    vertices and \<open>wf_edges\<close> says that every endpoint is a vertex.
  \<^item> \<open>Simulation\<close>: record \<open>simulation\<close>, \<open>set_simulation_specification\<close>,
    \<open>generate_network_graph\<close>, the start loop \<open>start_nodes\<close>.
  \<^item> \<open>Supervisor\<close>: the scan \<open>scan_from\<close>/\<open>scan_nodes\<close> with its early break and
    the polling loop \<open>wait_loop\<close>, a \<^theory_text>\<open>partial_function (option)\<close> over an
    environment \<open>env :: nat \<Rightarrow> node list\<close> (the node states at each second, since the
    nodes run while the supervisor sleeps); \<open>None\<close> is blocking forever.
    \<open>node_env\<close> builds environments from per-node schedules of iterations.
  \<^item> \<open>Interleaving\<close>: the supervisor as a program counter over the loop
    (\<open>sup_step\<close>), interleaved with node iterations at any point (\<open>sim_step\<close>,
    an \<^theory_text>\<open>inductive\<close> relation), reachable states from \<open>sys_init\<close>,
    the well-formedness \<open>wf_sys\<close> of a state and the invariant \<open>sup_inv\<close>.
  \<^item> \<open>Polling_Refinement\<close>: the link between the two models of the supervisor;
    \<open>poll_state env t acc\<close> is the interleaved state at the loop test at second
    \<open>t\<close>, and a poll is the node iterations of its sleep followed by one loop
    iteration of the supervisor.
  \<^item> \<open>Reporter\<close>: numpy subtraction with broadcasting (\<open>np_sub\<close>), the distance of
    line 42 (\<open>dst\<close>), the inner and outer loops (\<open>dist_loop\<close>, \<open>plot_loop\<close>), the
    labels \<^verbatim>\<open>node_{j}\<close> (\<open>nat_str\<close>, \<open>node_label\<close>), the figure as data
    (\<open>figure\<close>, \<open>axes\<close>, \<open>finish_figure\<close>), the array conversion of line 45
    that raises on ragged histories (\<open>plot_matrix\<close>), the method
    \<open>generate_convergence_plot\<close>, and the intended drawing \<open>expected_figure\<close>.
  \<^item> this theory: the module script as \<open>main\<close>, from the console answers, the drawn
    topology and the nodes' schedules to an error, \<open>Blocked\<close>, or the exit with the
    printed line and the figure; \<open>report_at\<close> is the report of line 88 reading the
    still running nodes at a given second.

  \<^emph>\<open>What is proved.\<close> The scan computes "every latch set" and queries exactly the
  nodes up to the first unset latch. The polling loop has a closed form: it returns at
  the first scan instant at which every latch is set and blocks forever when there is
  none; with latches that do not reset, it returns at most one poll interval (5 s) after
  global convergence and never before the last latch is set. In the interleaved model,
  every reachable state after the loop has every latch set (an invariant proved by rule
  induction over the reachable states), every reachable state is well formed
  (\<open>wf_sys\<close>: node count fixed, scan index within \<open>0 .. n\<close>, flag consistent
  with the program counter), and from every reachable state with every latch set the
  supervisor leaves the loop within \<open>n + 4\<close> of its own statements. One loop
  iteration run statement by statement computes the atomic scan \<open>scan_nodes\<close> of the
  polling loop, and the two models agree: every run of the polling loop that returns is
  an execution of the interleaving reaching the state after the loop with the same node
  states, and when the polling loop blocks the interleaving stays in the loop at every
  poll instant. The daemon threads keep running after the loop, so the report may race
  with them; a later read only extends every series of the report.

  The report draws, per node and per iteration, the Euclidean distance to the optimum,
  with the labels, panels, titles, legends, grids, file name and window of lines
  44--57; it depends on the nodes only through their histories, so two invocations on
  frozen histories draw the same series. Its exceptions are characterised:
  \<^verbatim>\<open>AttributeError\<close> exactly without a graph, \<^verbatim>\<open>IndexError\<close> when the
  specification counts more nodes than the graph holds, \<^verbatim>\<open>ValueError\<close> from numpy,
  in particular when a history mixes estimate dimensions (line 45), and the silent
  broadcast of a one-element optimum at line 42. The breadth-first check of the
  topology decides connectivity: on edges inside the vertex range, graph generation
  succeeds exactly when every vertex is connected to vertex 0 in the undirected graph
  (soundness and completeness against the reflexive-transitive closure). The set-up
  stores the configuration read, or raises on an invalid one, and the start loop marks
  every node as a started daemon thread. End to end, the script aborts only with
  \<^verbatim>\<open>InvalidConfiguration\<close>, \<^verbatim>\<open>DisconnectedTopologyError\<close> or the report's
  \<^verbatim>\<open>ValueError\<close>; scenarios B, C and D of spec.md 8 are theorems about
  \<open>main\<close> over every valid input, and scenario A is the witness of the theorem that
  an exiting run reports on node states with every latch set.

  \<^emph>\<open>Bounds and fuel.\<close> The polling loop is a \<^theory_text>\<open>partial_function
  (option)\<close>, and its return is proved from the existence of a converged scan instant,
  not from fuel. The index loops terminate by the measures \<open>length - i\<close> and
  \<open>n - j\<close>. The supervisor run without interleaving, \<open>sup_run\<close>, takes a number of
  statements; \<open>n + 4\<close> is enough once every latch is set (one loop test, the sleep,
  \<open>n\<close> scan steps, the end of the scan, the final loop test), with the variant
  \<open>steps_to_done\<close>. The connectivity check runs \<open>n\<close> expansion rounds on \<open>n\<close>
  vertices; this is enough when all edges lie in \<open>0 .. n - 1\<close>: each round either
  adds a vertex or reaches a fixpoint closed under the edges, and there are at most
  \<open>n\<close> vertices (\<open>expand_set_grow\<close>, \<open>reach_complete\<close>). One loop
  iteration of the supervisor takes two statements (test and sleep) plus one per node read,
  plus one for the end of the scan when it does not break.

  \<^emph>\<open>Not modelled.\<close> The pixels of matplotlib's rendering and the interactive window
  (the figure is the data handed to matplotlib), \<^verbatim>\<open>draw_graph\<close>, the console
  \<^verbatim>\<open>input()\<close> calls (their values are arguments), the random draw of the topology
  (an argument), the node's numerical update rule (its outputs are arguments: spec.md 9
  states that the rule is not in the given source and is not to be guessed, so the node
  is modelled at the interface the orchestrator uses), wall-clock
  time beyond whole seconds, and the process exit beyond the final outcome. Numbers
  are real numbers, not IEEE doubles: rounding and underflow of line 42 are not
  modelled, so no property relies on an exact distance such as zero. Within one run of
  \<open>main\<close> the report reads a snapshot of the nodes taken when the supervisor returns;
  the node threads keep running meanwhile, and \<open>report_at\<close> gives the report of a
  later snapshot, but reads of one report that interleave with node iterations (line 45
  re-reads a history after lines 40--43 used it) are not modelled. In the environments
  \<open>node_env\<close> each node runs one iteration per second along a finite schedule from
  the supervisor's call on.

  \<^emph>\<open>Plan for later work.\<close> The duration of a scan (the reads take time, so the
  \<open>r\<close> of the polling loop is a lower bound). The source lines outside the map are
  the imports and the module-level type annotations (lines 1--11), which have no
  behaviour.
\<close>

datatype outcome = Blocked | Exited "string list" figure

text \<open>Lines 71--91. \<^verbatim>\<open>draw_graph()\<close> (line 77) only renders. The supervisor is
  called at second 0 of the nodes' run; the report reads the nodes as they are when the
  supervisor returns.\<close>

definition main :: "spec_input \<Rightarrow> topology \<Rightarrow> (nat \<Rightarrow> (vec \<times> bool) list) \<Rightarrow> error + outcome" where
  "main i t sched =
     bind_res (set_simulation_specification Simulation_init i) (\<lambda>sim1.
     bind_res (generate_network_graph sim1 (simulation_specification sim1) t) (\<lambda>sim2.
     bind_res (start_nodes sim2) (\<lambda>sim3.
     bind_res (get_network_graph sim3) (\<lambda>g.
     (let env = node_env (nodes g) sched in
      case wait_until_result_founded env 0 of
        None \<Rightarrow> Inr Blocked
      | Some r \<Rightarrow>
          bind_res (generate_convergence_plot (sim3\<lparr>network_graph := Some (g\<lparr>nodes := env r\<rparr>)\<rparr>)) (\<lambda>f.
          Inr (Exited [''Result founded: ''] f)))))))"

definition spec_of :: "spec_input \<Rightarrow> simulation_specification" where
  "spec_of i = \<lparr>number_of_nodes = in_number_of_nodes i, x0 = in_x0 i, epsilon = in_epsilon i,
      c = in_c i, min_accepted_divergence = in_min_accepted_divergence i\<rparr>"

definition started_node :: node where
  "started_node = new_node\<lparr>daemon := True, started := True\<rparr>"

text \<open>Inputs of the scenarios: \<open>n\<close> nodes; a path topology on three vertices, a
  disconnected one on five; every node accepting at its tenth iteration (scenario A);
  node 1 of two never accepting (scenario B).\<close>

definition input_n :: "int \<Rightarrow> spec_input" where
  "input_n n = \<lparr>in_number_of_nodes = n, in_x0 = [0], in_epsilon = 1, in_c = 1, in_min_accepted_divergence = 0\<rparr>"

definition line_topology :: topology where
  "line_topology = \<lparr>topo_edges = [(0, 1), (1, 2)], topo_optimum = [0]\<rparr>"

definition split_topology :: topology where
  "split_topology = \<lparr>topo_edges = [(0, 1), (1, 2), (3, 4)], topo_optimum = [0]\<rparr>"

definition sched_A :: "nat \<Rightarrow> (vec \<times> bool) list" where
  "sched_A i = replicate 9 ([0], False) @ [([0], True)]"

definition sched_B :: "nat \<Rightarrow> (vec \<times> bool) list" where
  "sched_B i = (if i = 0 then replicate 4 ([1], False) @ [([1], True)] else replicate 4 ([1], False))"


subsection \<open>Lemmas\<close>

lemma started_node_fresh: "\<not> has_result_founded started_node" "all_calculated_xis started_node = []"
  by (simp_all add: started_node_def has_result_founded_def new_node_def)

lemma main_invalid:
  "in_number_of_nodes i < 1 \<or> in_min_accepted_divergence i < 0 \<Longrightarrow> main i t sched = Inl InvalidConfiguration"
  by (simp add: main_def set_simulation_specification_eq)

lemma main_disconnected:
  "\<not> in_number_of_nodes i < 1 \<Longrightarrow> \<not> in_min_accepted_divergence i < 0 \<Longrightarrow>
   \<not> connected (nat (in_number_of_nodes i)) (topo_edges t) \<Longrightarrow> main i t sched = Inl DisconnectedTopologyError"
  by (simp add: main_def set_simulation_specification_eq generate_network_graph_def NetworkGraph_def)

lemma main_valid:
  assumes "\<not> in_number_of_nodes i < 1" "\<not> in_min_accepted_divergence i < 0"
    "connected (nat (in_number_of_nodes i)) (topo_edges t)"
  shows "main i t sched =
    (let g = \<lparr>nodes = replicate (nat (in_number_of_nodes i)) started_node, optimum_point = topo_optimum t,
              edges = topo_edges t\<rparr>;
         env = node_env (nodes g) sched in
     case wait_until_result_founded env 0 of
        None \<Rightarrow> Inr Blocked
      | Some r \<Rightarrow>
          bind_res (generate_convergence_plot
             \<lparr>simulation_specification = spec_of i, network_graph = Some (g\<lparr>nodes := env r\<rparr>)\<rparr>) (\<lambda>f.
          Inr (Exited [''Result founded: ''] f)))"
proof -
  have "start_nodes \<lparr>simulation_specification = spec_of i, network_graph = Some
      \<lparr>nodes = replicate (nat (in_number_of_nodes i)) new_node, optimum_point = topo_optimum t, edges = topo_edges t\<rparr>\<rparr>
    = Inr \<lparr>simulation_specification = spec_of i, network_graph = Some
      \<lparr>nodes = replicate (nat (in_number_of_nodes i)) started_node, optimum_point = topo_optimum t, edges = topo_edges t\<rparr>\<rparr>"
    by (simp add: start_nodes_eq new_node_fresh started_node_def)
  with assms show ?thesis
    unfolding spec_of_def
    by (simp add: main_def set_simulation_specification_eq generate_network_graph_def NetworkGraph_def
        Simulation_init_def get_network_graph_def Let_def split: option.split)
qed


lemma disconnected_split: "\<not> connected 5 [(0, 1), (1, 2), (3, 4)]"
  by code_simp





subsection \<open>End-to-end properties of the script\<close>

text \<open>C20: scenario C of spec.md 8: a node count below 1 raises
  \<^verbatim>\<open>InvalidConfiguration\<close> before the topology is built, whatever the topology and
  the nodes would have done.\<close>

theorem main_invalid_configuration:
  "in_number_of_nodes i < 1 \<Longrightarrow> \<forall>t sched. main i t sched = Inl InvalidConfiguration"
  by (simp add: main_def set_simulation_specification_eq)

theorem main_invalid_configuration_witness:
  "in_number_of_nodes (input_n 0) < 1 \<and>
   (\<forall>t sched. main (input_n 0) t sched = Inl InvalidConfiguration)"
proof -
  have h: "in_number_of_nodes (input_n 0) < 1" by (simp add: input_n_def)
  show ?thesis using h main_invalid_configuration [OF h] by blast
qed

text \<open>C21: scenario D: a valid configuration whose drawn topology is disconnected
  raises \<^verbatim>\<open>DisconnectedTopologyError\<close> before any node thread is started.\<close>

theorem main_disconnected_topology:
  assumes "\<not> in_number_of_nodes i < 1" and "\<not> in_min_accepted_divergence i < 0"
    and "\<not> connected (nat (in_number_of_nodes i)) (topo_edges t)"
  shows "main i t sched = Inl DisconnectedTopologyError"
  using assms by (simp add: main_def set_simulation_specification_eq generate_network_graph_def NetworkGraph_def)

theorem main_disconnected_topology_witness:
  "\<not> in_number_of_nodes (input_n 5) < 1 \<and> \<not> in_min_accepted_divergence (input_n 5) < 0 \<and>
   \<not> connected (nat (in_number_of_nodes (input_n 5))) (topo_edges split_topology) \<and>
   main (input_n 5) split_topology sched_A = Inl DisconnectedTopologyError"
proof -
  have h1: "\<not> in_number_of_nodes (input_n 5) < 1" by (simp add: input_n_def)
  have h2: "\<not> in_min_accepted_divergence (input_n 5) < 0" by (simp add: input_n_def)
  have h3: "\<not> connected (nat (in_number_of_nodes (input_n 5))) (topo_edges split_topology)"
    using disconnected_split by (simp add: input_n_def split_topology_def)
  show ?thesis using h1 h2 h3 main_disconnected_topology [OF h1 h2 h3] by blast
qed



text \<open>C19: scenario B end to end: if one node's iterations never accept, the script
  blocks in the supervisor forever and never reaches the report.\<close>

theorem main_blocks:
  assumes "\<not> in_number_of_nodes i < 1" and "\<not> in_min_accepted_divergence i < 0"
    and "connected (nat (in_number_of_nodes i)) (topo_edges t)"
    and "k < nat (in_number_of_nodes i)" and "\<not> list_ex snd (sched k)"
  shows "main i t sched = Inr Blocked"
proof -
  let ?env = "node_env (replicate (nat (in_number_of_nodes i)) started_node) sched"
  have "\<not> all_found (?env s)" for s
  proof -
    have "\<not> (\<exists>p \<in> set (take s (sched k)). snd p)"
      using assms(5) set_take_subset [of s "sched k"] by (auto simp: list_ex_iff)
    with assms(4) show ?thesis
      by (auto simp: all_found_def list_all_length node_env_latch started_node_fresh)
  qed
  then have "wait_until_result_founded ?env 0 = None"
    by (simp add: wait_until_result_founded_def wait_loop_eq)
  then show ?thesis by (simp add: main_valid [OF assms(1-3)] Let_def)
qed

theorem main_blocks_witness:
  "\<not> in_number_of_nodes (input_n 2) < 1 \<and> \<not> in_min_accepted_divergence (input_n 2) < 0 \<and>
   connected (nat (in_number_of_nodes (input_n 2))) (topo_edges line_topology) \<and>
   1 < nat (in_number_of_nodes (input_n 2)) \<and> \<not> list_ex snd (sched_B 1) \<and>
   main (input_n 2) line_topology sched_B = Inr Blocked"
proof -
  have h1: "\<not> in_number_of_nodes (input_n 2) < 1" by (simp add: input_n_def)
  have h2: "\<not> in_min_accepted_divergence (input_n 2) < 0" by (simp add: input_n_def)
  have h3: "connected (nat (in_number_of_nodes (input_n 2))) (topo_edges line_topology)"
    by (simp add: input_n_def line_topology_def) code_simp
  have h4: "1 < nat (in_number_of_nodes (input_n 2))" by (simp add: input_n_def)
  have h5: "\<not> list_ex snd (sched_B 1)" by (simp add: sched_B_def list_ex_iff)
  show ?thesis using h1 h2 h3 h4 h5 main_blocks [where sched = sched_B and k = 1, OF h1 h2 h3 h4 h5] by blast
qed

text \<open>C25: the script aborts only with \<^verbatim>\<open>InvalidConfiguration\<close> on an invalid
  configuration, \<^verbatim>\<open>DisconnectedTopologyError\<close> on a valid configuration with a
  disconnected topology, or \<^verbatim>\<open>ValueError\<close> from the report on a valid, connected
  run (estimates whose shape numpy cannot broadcast against the optimum): no
  \<^verbatim>\<open>RuntimeError\<close>, \<^verbatim>\<open>AttributeError\<close> or \<^verbatim>\<open>IndexError\<close> is reachable
  from the script.\<close>

theorem main_errors:
  assumes "main i t sched = Inl e"
  shows "(e = InvalidConfiguration \<and> (in_number_of_nodes i < 1 \<or> in_min_accepted_divergence i < 0)) \<or>
    (e = DisconnectedTopologyError \<and> \<not> in_number_of_nodes i < 1 \<and> \<not> in_min_accepted_divergence i < 0 \<and>
       \<not> connected (nat (in_number_of_nodes i)) (topo_edges t)) \<or>
    (e = ValueError \<and> \<not> in_number_of_nodes i < 1 \<and> \<not> in_min_accepted_divergence i < 0 \<and>
       connected (nat (in_number_of_nodes i)) (topo_edges t))"
proof -
  consider (invalid) "in_number_of_nodes i < 1 \<or> in_min_accepted_divergence i < 0"
    | (disc) "\<not> in_number_of_nodes i < 1" "\<not> in_min_accepted_divergence i < 0"
        "\<not> connected (nat (in_number_of_nodes i)) (topo_edges t)"
    | (conn) "\<not> in_number_of_nodes i < 1" "\<not> in_min_accepted_divergence i < 0"
        "connected (nat (in_number_of_nodes i)) (topo_edges t)"
    by blast
  then show ?thesis
  proof cases
    case invalid
    with assms main_invalid [OF invalid] show ?thesis by simp
  next
    case disc
    with assms main_disconnected [OF disc] show ?thesis by simp
  next
    case conn
    let ?env = "node_env (replicate (nat (in_number_of_nodes i)) started_node) sched"
    from assms obtain r where "wait_until_result_founded ?env 0 = Some r"
      by (cases "wait_until_result_founded ?env 0") (simp_all add: main_valid [OF conn] Let_def)
    with assms have rep: "generate_convergence_plot \<lparr>simulation_specification = spec_of i, network_graph =
        Some \<lparr>nodes = ?env r, optimum_point = topo_optimum t, edges = topo_edges t\<rparr>\<rparr> = Inl e"
      by (simp add: main_valid [OF conn] Let_def bind_res_eq_Inl)
    have "e = ValueError"
      using generate_Inl [OF rep] by (auto simp: spec_of_def)
    with conn show ?thesis by simp
  qed
qed

theorem main_errors_witness:
  "main (input_n 0) line_topology sched_A = Inl InvalidConfiguration \<and>
   in_number_of_nodes (input_n 0) < 1"
proof -
  have h: "main (input_n 0) line_topology sched_A = Inl InvalidConfiguration"
    by (rule main_invalid) (simp add: input_n_def)
  show ?thesis using h main_errors [OF h] by (simp add: input_n_def)
qed



end
